theory Spec2Isabelle
  imports Complex_Main "HOL-Library.List_Lexorder" "HOL-Library.Char_ord"
begin

section \<open>Grids\<close>

text \<open>
  \<^verbatim>\<open>struct ARCGrid\<close> (NEBULA_ARC_SOLVER_STANDALONE.cpp) and \<^verbatim>\<open>struct FARCGrid\<close>
  (PatternDecoder.cpp) have the same three fields: the rows of cells and the two
  dimensions. Cell values and coordinates are C++ \<^verbatim>\<open>int\<close>/\<^verbatim>\<open>int32\<close>; they are modelled
  as \<open>int\<close>, since no arithmetic on them leaves the range of the grid dimensions.
  Row \<open>y\<close> is \<open>data ! y\<close>, the cell in column \<open>x\<close> of it is \<open>data ! y ! x\<close>.
\<close>

record ARCGrid =
  data :: "int list list"
  width :: int
  height :: int

type_synonym FARCGrid = ARCGrid

text \<open>\<^verbatim>\<open>ARCGrid(int w, int h)\<close> and \<^verbatim>\<open>FARCGrid(int32 W, int32 H)\<close>: \<open>h\<close> rows of \<open>w\<close> zeros.\<close>

definition newGrid :: "int \<Rightarrow> int \<Rightarrow> ARCGrid" where
  "newGrid w h = \<lparr>data = replicate (nat h) (replicate (nat w) 0), width = w, height = h\<rparr>"

text \<open>
  The shape every constructor establishes: \<open>height\<close> rows, each of \<open>width\<close> cells.
  The accessors index \<open>data\<close> only after their bounds check against \<open>width\<close> and
  \<open>height\<close>, so on a grid of this shape no access leaves the vectors.
\<close>

definition wf_grid :: "ARCGrid \<Rightarrow> bool" where
  "wf_grid g \<longleftrightarrow>
     0 \<le> width g \<and> 0 \<le> height g \<and> int (length (data g)) = height g \<and>
     list_all (\<lambda>row. int (length row) = width g) (data g)"

definition getCell :: "ARCGrid \<Rightarrow> int \<Rightarrow> int \<Rightarrow> int" where
  "getCell g x y =
     (if x \<ge> 0 \<and> x < width g \<and> y \<ge> 0 \<and> y < height g
      then data g ! nat y ! nat x
      else - 1)"

definition setCell :: "ARCGrid \<Rightarrow> int \<Rightarrow> int \<Rightarrow> int \<Rightarrow> ARCGrid" where
  "setCell g x y v =
     (if x \<ge> 0 \<and> x < width g \<and> y \<ge> 0 \<and> y < height g
      then g\<lparr>data := (data g)[nat y := (data g ! nat y)[nat x := v]]\<rparr>
      else g)"

text \<open>\<^verbatim>\<open>ARCGrid::copy\<close>: a grid of the same dimensions whose rows are then overwritten.\<close>

definition copy :: "ARCGrid \<Rightarrow> ARCGrid" where
  "copy g = (newGrid (width g) (height g))\<lparr>data := data g\<rparr>"

text \<open>\<^verbatim>\<open>FARCGrid::GetCell\<close> and \<^verbatim>\<open>FARCGrid::SetCell\<close> of PatternDecoder.cpp.\<close>

definition GetCell :: "FARCGrid \<Rightarrow> int \<Rightarrow> int \<Rightarrow> int" where
  "GetCell g X Y =
     (if X \<ge> 0 \<and> X < width g \<and> Y \<ge> 0 \<and> Y < height g
      then data g ! nat Y ! nat X
      else - 1)"

definition SetCell :: "FARCGrid \<Rightarrow> int \<Rightarrow> int \<Rightarrow> int \<Rightarrow> FARCGrid" where
  "SetCell g X Y Value =
     (if X \<ge> 0 \<and> X < width g \<and> Y \<ge> 0 \<and> Y < height g
      then g\<lparr>data := (data g)[nat Y := (data g ! nat Y)[nat X := Value]]\<rparr>
      else g)"


section \<open>Loops and ordered maps\<close>

text \<open>
  \<^verbatim>\<open>for (int i = 0; i < n; ++i) body\<close> and \<^verbatim>\<open>for (int i = a; i < n; ++i) body\<close>, the
  loop variable running upwards and the body transforming the state. The list
  \<open>[a..n - 1]\<close> is empty when \<open>n \<le> a\<close>, as the loop then does not run.
\<close>

definition for_range :: "int \<Rightarrow> int \<Rightarrow> (int \<Rightarrow> 's \<Rightarrow> 's) \<Rightarrow> 's \<Rightarrow> 's" where
  "for_range a n body s = fold body [a..n - 1] s"

definition for_upto :: "int \<Rightarrow> (int \<Rightarrow> 's \<Rightarrow> 's) \<Rightarrow> 's \<Rightarrow> 's" where
  "for_upto n body s = for_range 0 n body s"

text \<open>
  A \<^verbatim>\<open>std::map\<close> is kept as the list of its entries in ascending key order, which
  is the order its iteration visits. \<open>map_modify k f d m\<close> is \<^verbatim>\<open>m[k] = f(m[k])\<close>:
  \<^verbatim>\<open>operator[]\<close> inserts the value-initialised \<open>d\<close> under a key that was absent.
  \<^verbatim>\<open>std::string\<close> and \<^verbatim>\<open>std::vector\<close> keys compare lexicographically, as lists do
  here.
\<close>

fun map_modify :: "'k::linorder \<Rightarrow> ('v \<Rightarrow> 'v) \<Rightarrow> 'v \<Rightarrow> ('k \<times> 'v) list \<Rightarrow> ('k \<times> 'v) list" where
  "map_modify k f d [] = [(k, f d)]"
| "map_modify k f d ((k', v) # m) =
     (if k = k' then (k', f v) # m
      else if k < k' then (k, f d) # (k', v) # m
      else (k', v) # map_modify k f d m)"

text \<open>\<^verbatim>\<open>std::to_string(int)\<close>: the decimal digits, with a minus sign when negative.\<close>

fun digits :: "nat \<Rightarrow> string" where
  "digits n =
     (if n < 10 then [''0123456789'' ! n]
      else digits (n div 10) @ [''0123456789'' ! (n mod 10)])"

definition to_string :: "int \<Rightarrow> string" where
  "to_string i = (if i < 0 then CHR ''-'' # digits (nat (- i)) else digits (nat i))"

text \<open>\<^verbatim>\<open>s.find(t) != std::string::npos\<close>: \<open>t\<close> occurs in \<open>s\<close> as a contiguous substring.\<close>

definition contains :: "string \<Rightarrow> string \<Rightarrow> bool" where
  "contains s t \<longleftrightarrow> list_ex (\<lambda>i. take (length t) (drop i s) = t) [0..<Suc (length s)]"

section \<open>Single-precision literals\<close>

text \<open>
  A \<^verbatim>\<open>float\<close> literal such as \<^verbatim>\<open>0.9f\<close> is not the decimal it is written as but the
  nearest number of the form \<open>m \<cdot> 2\<^sup>e\<close> with a significand \<open>m\<close> of 24 bits, ties going
  to the even significand; so is the result of every \<^verbatim>\<open>float\<close> operation. \<open>f32 x\<close> is
  that number for a real \<open>x\<close>. The exponent is found by halving or doubling, at most
  300 times, which covers the normal range of the format; overflow and subnormal
  numbers are not modelled.
\<close>

fun f32_exponent :: "nat \<Rightarrow> real \<Rightarrow> int" where
  "f32_exponent 0 x = 0"
| "f32_exponent (Suc k) x =
     (if x \<ge> 2 then f32_exponent k (x / 2) + 1
      else if x < 1 then f32_exponent k (2 * x) - 1
      else 0)"

definition pow2 :: "int \<Rightarrow> real" where
  "pow2 e = (if e \<ge> 0 then 2 ^ nat e else 1 / 2 ^ nat (- e))"

definition round_even :: "real \<Rightarrow> int" where
  "round_even q =
     (let f = \<lfloor>q\<rfloor>
      in if q - of_int f < 1 / 2 then f
         else if q - of_int f > 1 / 2 then f + 1
         else if even f then f else f + 1)"

definition f32 :: "real \<Rightarrow> real" where
  "f32 x =
     (if x = 0 then 0
      else (let ulp = pow2 (f32_exponent 300 \<bar>x\<bar> - 23)
            in sgn x * of_int (round_even (\<bar>x\<bar> / ulp)) * ulp))"

section \<open>Pattern detector (NEBULA_ARC_SOLVER_STANDALONE.cpp)\<close>

text \<open>
  \<^verbatim>\<open>struct Pattern\<close>. The \<^verbatim>\<open>float\<close> confidence is the real number the single-precision
  value stands for: the detector assigns it from literals and from one product and
  sum, each rounded by \<open>f32\<close>.
\<close>

record Pattern =
  type :: string
  positions :: "(int \<times> int) list"
  color :: int
  confidence :: real

text \<open>\<^verbatim>\<open>Pattern()\<close>: empty type and positions, color 0, confidence 0.\<close>

definition newPattern :: Pattern where
  "newPattern = \<lparr>type = [], positions = [], color = 0, confidence = 0\<rparr>"

text \<open>The cells of one color, collected row by row (\<^verbatim>\<open>colorCells\<close> in \<^verbatim>\<open>detectRectangles\<close>).\<close>

definition colorCells :: "ARCGrid \<Rightarrow> int \<Rightarrow> (int \<times> int) list" where
  "colorCells grid c =
     for_upto (height grid) (\<lambda>y cells.
       for_upto (width grid) (\<lambda>x cells.
         if getCell grid x y = c then cells @ [(x, y)] else cells) cells) []"

text \<open>
  The body of the pair loop of \<^verbatim>\<open>detectRectangles\<close> for the cells at indices \<open>i < j\<close>
  of \<open>cells\<close>: the \<^verbatim>\<open>break\<close> of the corner loop only ends the check early, so the
  flag is the conjunction over the four corners.
\<close>

definition rectangleAt :: "ARCGrid \<Rightarrow> int \<Rightarrow> (int \<times> int) list \<Rightarrow> nat \<Rightarrow> nat \<Rightarrow> Pattern list \<Rightarrow> Pattern list" where
  "rectangleAt grid c cells i j rectangles =
     (let x1 = fst (cells ! i); y1 = snd (cells ! i);
          x2 = fst (cells ! j); y2 = snd (cells ! j)
      in if x1 \<noteq> x2 \<and> y1 \<noteq> y2 then
           (let corners = [(x1, y1), (x1, y2), (x2, y1), (x2, y2)];
                isRectangle = list_all (\<lambda>corner. getCell grid (fst corner) (snd corner) = c) corners
            in if isRectangle
               then rectangles @ [\<lparr>type = ''rectangle'', positions = corners, color = c, confidence = f32 0.8\<rparr>]
               else rectangles)
         else rectangles)"

definition detectRectangles :: "ARCGrid \<Rightarrow> Pattern list" where
  "detectRectangles grid =
     fold (\<lambda>c rectangles.
       (let cells = colorCells grid c
        in if length cells \<ge> 4 then
             fold (\<lambda>i rectangles.
               fold (\<lambda>j rectangles. rectangleAt grid c cells i j rectangles)
                 [Suc i..<length cells] rectangles)
               [0..<length cells] rectangles
           else rectangles)) [1..9] []"

text \<open>
  The scan of \<^verbatim>\<open>detectLines\<close> along one row or column. The state is the list of
  lines, \<^verbatim>\<open>currentColor\<close> and \<^verbatim>\<open>lineStart\<close>; \<open>n\<close> is the length of the row or column,
  \<open>cell k\<close> the cell at index \<open>k\<close> of it, \<open>pos k\<close> its coordinates, and the loop
  runs once more at \<open>k = n\<close> with the color \<open>-1\<close> to close the last run.
\<close>

definition scanStep :: "string \<Rightarrow> int \<Rightarrow> (int \<Rightarrow> int) \<Rightarrow> (int \<Rightarrow> int \<times> int) \<Rightarrow> int
    \<Rightarrow> Pattern list \<times> int \<times> int \<Rightarrow> Pattern list \<times> int \<times> int" where
  "scanStep ty n cell pos k st =
     (case st of (lines, currentColor, lineStart) \<Rightarrow>
        (let cellColor = (if k < n then cell k else - 1)
         in if cellColor \<noteq> currentColor then
              ((if currentColor > 0 \<and> k - lineStart \<ge> 3
                then lines @ [\<lparr>type = ty,
                                positions = for_range lineStart k (\<lambda>l ps. ps @ [pos l]) [],
                                color = currentColor, confidence = f32 0.7\<rparr>]
                else lines), cellColor, k)
            else (lines, currentColor, lineStart)))"

definition scanLine :: "string \<Rightarrow> int \<Rightarrow> (int \<Rightarrow> int) \<Rightarrow> (int \<Rightarrow> int \<times> int) \<Rightarrow> Pattern list \<Rightarrow> Pattern list" where
  "scanLine ty n cell pos lines =
     fst (for_upto (n + 1) (scanStep ty n cell pos) (lines, - 1, - 1))"

definition detectLines :: "ARCGrid \<Rightarrow> Pattern list" where
  "detectLines grid =
     (let horizontal =
            for_upto (height grid) (\<lambda>y lines.
              scanLine ''horizontal_line'' (width grid) (\<lambda>x. getCell grid x y) (\<lambda>lx. (lx, y)) lines) []
      in for_upto (width grid) (\<lambda>x lines.
           scanLine ''vertical_line'' (height grid) (\<lambda>y. getCell grid x y) (\<lambda>ly. (x, ly)) lines)
           horizontal)"

text \<open>
  The two flag loops of \<^verbatim>\<open>detectSymmetries\<close>. A loop condition
  \<^verbatim>\<open>... && horizontalSymmetry\<close> stops the loop once the flag is false; the body here
  is skipped then, which leaves the same flag. \<^verbatim>\<open>grid.width / 2\<close> is \<open>div\<close>: the two
  agree on a non-negative width, and both bounds are below 1 on a negative one.
\<close>

definition horizontalSymmetry :: "ARCGrid \<Rightarrow> bool" where
  "horizontalSymmetry grid =
     for_upto (height grid) (\<lambda>y flag.
       if flag then
         for_upto (width grid div 2) (\<lambda>x flag.
           if flag then
             (if getCell grid x y \<noteq> getCell grid (width grid - 1 - x) y then False else flag)
           else flag) flag
       else flag) True"

definition verticalSymmetry :: "ARCGrid \<Rightarrow> bool" where
  "verticalSymmetry grid =
     for_upto (height grid div 2) (\<lambda>y flag.
       if flag then
         for_upto (width grid) (\<lambda>x flag.
           if flag then
             (if getCell grid x y \<noteq> getCell grid x (height grid - 1 - y) then False else flag)
           else flag) flag
       else flag) True"

definition detectSymmetries :: "ARCGrid \<Rightarrow> Pattern list" where
  "detectSymmetries grid =
     (if horizontalSymmetry grid
      then [newPattern\<lparr>type := ''horizontal_symmetry'', confidence := f32 0.9\<rparr>] else []) @
     (if verticalSymmetry grid
      then [newPattern\<lparr>type := ''vertical_symmetry'', confidence := f32 0.9\<rparr>] else [])"

text \<open>The \<open>blockSize \<times> blockSize\<close> block whose top left cell is \<open>(x, y)\<close>, as rows.\<close>

definition blockAt :: "ARCGrid \<Rightarrow> int \<Rightarrow> int \<Rightarrow> int \<Rightarrow> int list list" where
  "blockAt grid blockSize x y =
     for_upto blockSize (\<lambda>by block.
       block @ [for_upto blockSize (\<lambda>bx row. row @ [getCell grid (x + bx) (y + by)]) []]) []"

text \<open>\<^verbatim>\<open>blockMap\<close>: every block of the grid with the positions it occurs at.\<close>

definition blockMap :: "ARCGrid \<Rightarrow> int \<Rightarrow> (int list list \<times> (int \<times> int) list) list" where
  "blockMap grid blockSize =
     for_upto (height grid - blockSize + 1) (\<lambda>y m.
       for_upto (width grid - blockSize + 1) (\<lambda>x m.
         map_modify (blockAt grid blockSize x y) (\<lambda>ps. ps @ [(x, y)]) [] m) m) []"

text \<open>The cells of the blocks at the positions \<open>ps\<close> (\<^verbatim>\<open>rep.positions\<close>).\<close>

definition blockCells :: "int \<Rightarrow> (int \<times> int) list \<Rightarrow> (int \<times> int) list" where
  "blockCells blockSize ps =
     fold (\<lambda>p cells.
       for_upto blockSize (\<lambda>by cells.
         for_upto blockSize (\<lambda>bx cells. cells @ [(fst p + bx, snd p + by)]) cells) cells) ps []"

definition repetitionPattern :: "int \<Rightarrow> (int \<times> int) list \<Rightarrow> Pattern" where
  "repetitionPattern blockSize ps =
     newPattern\<lparr>type := ''repetition_'' @ to_string blockSize @ ''x'' @ to_string blockSize,
                confidence := f32 (f32 0.6 + f32 (f32 0.1 * f32 (real (length ps)))),
                positions := blockCells blockSize ps\<rparr>"

definition detectRepetitions :: "ARCGrid \<Rightarrow> Pattern list" where
  "detectRepetitions grid =
     for_range 2 (min (width grid) (height grid) div 2 + 1) (\<lambda>blockSize repetitions.
       fold (\<lambda>entry repetitions.
         if length (snd entry) \<ge> 2
         then repetitions @ [repetitionPattern blockSize (snd entry)]
         else repetitions) (blockMap grid blockSize) repetitions) []"

definition detectPatterns :: "ARCGrid \<Rightarrow> Pattern list" where
  "detectPatterns grid =
     detectRectangles grid @ detectLines grid @ detectSymmetries grid @ detectRepetitions grid"


section \<open>Transformation engine (NEBULA_ARC_SOLVER_STANDALONE.cpp)\<close>

text \<open>The set of cell values of a grid (\<^verbatim>\<open>inputColors\<close>, \<^verbatim>\<open>outputColors\<close>).\<close>

definition gridColors :: "ARCGrid \<Rightarrow> int set" where
  "gridColors grid =
     for_upto (height grid) (\<lambda>y colors.
       for_upto (width grid) (\<lambda>x colors. insert (getCell grid x y) colors) colors) {}"

text \<open>The rule names one example pair adds to \<^verbatim>\<open>transformationRules\<close>.\<close>

definition exampleRules :: "ARCGrid \<Rightarrow> ARCGrid \<Rightarrow> string list" where
  "exampleRules inputExample outputExample =
     (let inputPatterns = detectPatterns inputExample;
          outputPatterns = detectPatterns outputExample
      in (if width inputExample \<noteq> width outputExample \<or> height inputExample \<noteq> height outputExample
          then [''size_change''] else []) @
         (if gridColors inputExample \<noteq> gridColors outputExample
          then [''color_change''] else []) @
         (if length inputPatterns \<noteq> length outputPatterns
          then [''pattern_change''] else []))"

text \<open>
  The example loop runs over the indices both vectors have, that is over the pairs
  of \<open>zip\<close>.
\<close>

definition transformationRules :: "ARCGrid list \<Rightarrow> ARCGrid list \<Rightarrow> string list" where
  "transformationRules inputExamples outputExamples =
     fold (\<lambda>ex rules. rules @ exampleRules (fst ex) (snd ex)) (zip inputExamples outputExamples) []"

definition ruleCount :: "string list \<Rightarrow> (string \<times> int) list" where
  "ruleCount rules = fold (\<lambda>rule m. map_modify rule (\<lambda>n. n + 1) 0 m) rules []"

definition dominantRule :: "(string \<times> int) list \<Rightarrow> string" where
  "dominantRule counts =
     fst (fold (\<lambda>entry st.
            if snd entry > snd st then (fst entry, snd entry) else st) counts (''copy'', 0))"

text \<open>The \<^verbatim>\<open>size_change\<close> branch: nearest-neighbour resampling to the first output's size.\<close>

definition resizeTo :: "ARCGrid \<Rightarrow> int \<Rightarrow> int \<Rightarrow> ARCGrid" where
  "resizeTo input newWidth newHeight =
     for_upto newHeight (\<lambda>y result.
       for_upto newWidth (\<lambda>x result.
         (let srcX = (x * width input) div newWidth;
              srcY = (y * height input) div newHeight
          in setCell result x y (getCell input srcX srcY))) result)
       (newGrid newWidth newHeight)"

text \<open>
  The \<^verbatim>\<open>color_change\<close> branch. \<^verbatim>\<open>colorMapping\<close> is a \<^verbatim>\<open>std::map<int, int>\<close> that is
  only assigned to and looked up, never iterated: a partial function.
\<close>

definition colorMapping :: "ARCGrid list \<Rightarrow> ARCGrid list \<Rightarrow> (int \<rightharpoonup> int)" where
  "colorMapping inputExamples outputExamples =
     (case (inputExamples, outputExamples) of
        (in0 # _, out0 # _) \<Rightarrow>
          for_upto (min (height in0) (height out0)) (\<lambda>y m.
            for_upto (min (width in0) (width out0)) (\<lambda>x m.
              (let inputColor = getCell in0 x y;
                   outputColor = getCell out0 x y
               in if inputColor \<noteq> outputColor then m(inputColor \<mapsto> outputColor) else m)) m)
            Map.empty
      | _ \<Rightarrow> Map.empty)"

definition applyColorMapping :: "(int \<rightharpoonup> int) \<Rightarrow> ARCGrid \<Rightarrow> ARCGrid" where
  "applyColorMapping m input =
     for_upto (height input) (\<lambda>y result.
       for_upto (width input) (\<lambda>x result.
         (case m (getCell result x y) of
            Some c \<Rightarrow> setCell result x y c
          | None \<Rightarrow> result)) result)
       (copy input)"

text \<open>The \<^verbatim>\<open>pattern_change\<close> branch: the edit one detected pattern makes to the result.\<close>

definition applyPattern :: "Pattern \<Rightarrow> ARCGrid \<Rightarrow> ARCGrid" where
  "applyPattern p result =
     (let r1 = (if type p = ''rectangle'' \<and> confidence p > f32 0.7
                then fold (\<lambda>pos r. setCell r (fst pos) (snd pos) (color p + 1)) (positions p) result
                else result)
      in if contains (type p) ''line'' \<and> confidence p > f32 0.6
         then fold (\<lambda>pos r.
                if type p = ''horizontal_line'' then
                  (let r' = (if fst pos > 0 then setCell r (fst pos - 1) (snd pos) (color p) else r)
                   in if fst pos < width r' - 1 then setCell r' (fst pos + 1) (snd pos) (color p) else r')
                else
                  (let r' = (if snd pos > 0 then setCell r (fst pos) (snd pos - 1) (color p) else r)
                   in if snd pos < height r' - 1 then setCell r' (fst pos) (snd pos + 1) (color p) else r'))
              (positions p) r1
         else r1)"

text \<open>
  \<^verbatim>\<open>applyTransformation\<close>. The \<^verbatim>\<open>size_change\<close> branch returns only when both example
  vectors are non-empty; otherwise control falls through to the later tests, which
  the rule name fails, and to the final copy.
\<close>

definition applyTransformation :: "ARCGrid \<Rightarrow> string \<Rightarrow> ARCGrid list \<Rightarrow> ARCGrid list \<Rightarrow> ARCGrid" where
  "applyTransformation input rule inputExamples outputExamples =
     (if rule = ''copy'' then copy input
      else if rule = ''size_change'' \<and> inputExamples \<noteq> [] \<and> outputExamples \<noteq> []
        then resizeTo input (width (hd outputExamples)) (height (hd outputExamples))
      else if rule = ''color_change''
        then applyColorMapping (colorMapping inputExamples outputExamples) input
      else if rule = ''pattern_change''
        then fold applyPattern (detectPatterns input) (copy input)
      else copy input)"

definition solveTransformation :: "ARCGrid list \<Rightarrow> ARCGrid list \<Rightarrow> ARCGrid \<Rightarrow> ARCGrid" where
  "solveTransformation inputExamples outputExamples testInput =
     applyTransformation testInput
       (dominantRule (ruleCount (transformationRules inputExamples outputExamples)))
       inputExamples outputExamples"


section \<open>Floating-point results\<close>

text \<open>
  A \<^verbatim>\<open>float\<close> that is the result of a division is modelled as an exact real number or
  one of the special values of IEEE arithmetic: the divisions of the code below have
  a count in the denominator, which is zero on an empty collection, and \<open>0 / 0\<close> is
  then NaN, not an exception. Rounding and the sign of zero are not modelled.
\<close>

datatype float = Fin real | PInf | NInf | NaN

fun fadd :: "float \<Rightarrow> float \<Rightarrow> float" where
  "fadd (Fin a) (Fin b) = Fin (a + b)"
| "fadd NaN _ = NaN"
| "fadd _ NaN = NaN"
| "fadd PInf NInf = NaN"
| "fadd NInf PInf = NaN"
| "fadd PInf _ = PInf"
| "fadd _ PInf = PInf"
| "fadd NInf _ = NInf"
| "fadd _ NInf = NInf"

fun fdiv :: "float \<Rightarrow> float \<Rightarrow> float" where
  "fdiv (Fin a) (Fin b) =
     (if b \<noteq> 0 then Fin (a / b) else if a = 0 then NaN else if a > 0 then PInf else NInf)"
| "fdiv NaN _ = NaN"
| "fdiv _ NaN = NaN"
| "fdiv (Fin a) _ = Fin 0"
| "fdiv PInf (Fin b) = (if b \<ge> 0 then PInf else NInf)"
| "fdiv NInf (Fin b) = (if b \<ge> 0 then NInf else PInf)"
| "fdiv _ _ = NaN"

text \<open>\<^verbatim>\<open>a < b\<close> on floats: false as soon as one side is NaN.\<close>

fun flt :: "float \<Rightarrow> float \<Rightarrow> bool" where
  "flt (Fin a) (Fin b) = (a < b)"
| "flt NaN _ = False"
| "flt _ NaN = False"
| "flt NInf NInf = False"
| "flt NInf _ = True"
| "flt _ PInf = (case PInf of PInf \<Rightarrow> True)"
| "flt _ _ = False"

section \<open>Transformation rules (PatternDecoder.cpp)\<close>

record FARCExample =
  Input :: FARCGrid
  Output :: FARCGrid

datatype ETransformationType =
  Translation | Rotation | Reflection | Scaling | ColorMapping
  | PatternFill | Symmetry | Connectivity | Enclosure | Counting

text \<open>
  \<^verbatim>\<open>FVector\<close> and \<^verbatim>\<open>FTransform\<close> are types of the engine the code is written for. A
  transform is represented by the two readings the rules take of it:
  \<^verbatim>\<open>GetTranslation()\<close> and \<^verbatim>\<open>GetRotation().Euler()\<close>.
\<close>

record FVector =
  X :: real
  Y :: real
  Z :: real

record FTransform =
  GetTranslation :: FVector
  GetRotationEuler :: FVector

text \<open>\<^verbatim>\<open>FMath::RoundToInt\<close>: the nearest integer, halves upwards.\<close>

definition RoundToInt :: "real \<Rightarrow> int" where
  "RoundToInt F = \<lfloor>F + 1 / 2\<rfloor>"

text \<open>
  A \<^verbatim>\<open>TMap<int32, int32>\<close> is the list of its pairs, in the order they were added;
  the code adds a key only when the map does not contain it. \<open>map_of\<close> looks a key
  up (\<^verbatim>\<open>Contains\<close>, \<^verbatim>\<open>operator[]\<close>), the length is \<^verbatim>\<open>Num()\<close>.
\<close>

type_synonym TMap = "(int \<times> int) list"

text \<open>
  \<^verbatim>\<open>struct FTransformationRule\<close>. \<^verbatim>\<open>CustomTransform\<close> is a \<^verbatim>\<open>TFunction\<close>, which may be
  unset.
\<close>

record FTransformationRule =
  Type :: ETransformationType
  SpatialTransform :: FTransform
  ColorMap :: TMap
  CustomTransform :: "(FARCGrid \<Rightarrow> FARCGrid) option"
  Confidence :: float

definition ApplyTranslation :: "FTransformationRule \<Rightarrow> FARCGrid \<Rightarrow> FARCGrid" where
  "ApplyTranslation R In =
     (let DX = RoundToInt (X (GetTranslation (SpatialTransform R)));
          DY = RoundToInt (Y (GetTranslation (SpatialTransform R)))
      in for_upto (height In) (\<lambda>y Out.
           for_upto (width In) (\<lambda>x Out.
             (let NewX = x + DX; NewY = y + DY
              in if NewX \<ge> 0 \<and> NewX < width In \<and> NewY \<ge> 0 \<and> NewY < height In
                 then SetCell Out NewX NewY (GetCell In x y)
                 else Out)) Out)
           (newGrid (width In) (height In)))"

text \<open>
  \<^verbatim>\<open>ApplyRotation\<close>: the output is constructed as \<^verbatim>\<open>FARCGrid(Input.Height, Input.Width)\<close>,
  so its width is the input's height. The rule's \<^verbatim>\<open>SpatialTransform\<close> is not read.
\<close>

definition ApplyRotation :: "FTransformationRule \<Rightarrow> FARCGrid \<Rightarrow> FARCGrid" where
  "ApplyRotation R In =
     for_upto (height In) (\<lambda>y Out.
       for_upto (width In) (\<lambda>x Out.
         SetCell Out (height In - 1 - y) x (GetCell In x y)) Out)
       (newGrid (height In) (width In))"

definition ApplyReflection :: "FTransformationRule \<Rightarrow> FARCGrid \<Rightarrow> FARCGrid" where
  "ApplyReflection R In =
     (let bHorizontal = (X (GetRotationEuler (SpatialTransform R)) > 0)
      in for_upto (height In) (\<lambda>y Out.
           for_upto (width In) (\<lambda>x Out.
             if bHorizontal
             then SetCell Out (width In - 1 - x) y (GetCell In x y)
             else SetCell Out x (height In - 1 - y) (GetCell In x y)) Out)
           (newGrid (width In) (height In)))"

definition ApplyColorMapping :: "FTransformationRule \<Rightarrow> FARCGrid \<Rightarrow> FARCGrid" where
  "ApplyColorMapping R In =
     for_upto (height In) (\<lambda>y Out.
       for_upto (width In) (\<lambda>x Out.
         (let OldColor = GetCell In x y;
              NewColor = (case map_of (ColorMap R) OldColor of Some c \<Rightarrow> c | None \<Rightarrow> OldColor)
          in SetCell Out x y NewColor)) Out)
       (newGrid (width In) (height In))"

definition Apply :: "FTransformationRule \<Rightarrow> FARCGrid \<Rightarrow> FARCGrid" where
  "Apply R In =
     (case Type R of
        Translation \<Rightarrow> ApplyTranslation R In
      | Rotation \<Rightarrow> ApplyRotation R In
      | Reflection \<Rightarrow> ApplyReflection R In
      | ColorMapping \<Rightarrow> ApplyColorMapping R In
      | _ \<Rightarrow> (case CustomTransform R of Some f \<Rightarrow> f In | None \<Rightarrow> In))"

text \<open>
  \<^verbatim>\<open>GridsMatch\<close>: the loops return false at the first differing cell, so the result
  is that no cell differs.
\<close>

definition GridsMatch :: "FARCGrid \<Rightarrow> FARCGrid \<Rightarrow> bool" where
  "GridsMatch A B =
     (if width A \<noteq> width B \<or> height A \<noteq> height B then False
      else list_all (\<lambda>y. list_all (\<lambda>x. GetCell A x y = GetCell B x y) [0..width A - 1])
             [0..height A - 1])"

text \<open>
  \<^verbatim>\<open>TArray::Sort\<close> with a predicate \<open>pred\<close>: an insertion sort. The engine's sort
  does not promise an order among elements neither of which precedes the other;
  here they keep their order.
\<close>

fun insert_by :: "('a \<Rightarrow> 'a \<Rightarrow> bool) \<Rightarrow> 'a \<Rightarrow> 'a list \<Rightarrow> 'a list" where
  "insert_by pred a [] = [a]"
| "insert_by pred a (b # bs) =
     (if pred b a then b # insert_by pred a bs else a # b # bs)"

definition Sort :: "('a \<Rightarrow> 'a \<Rightarrow> bool) \<Rightarrow> 'a list \<Rightarrow> 'a list" where
  "Sort pred xs = foldr (insert_by pred) xs []"

definition SuccessCount :: "FTransformationRule \<Rightarrow> FARCExample list \<Rightarrow> int" where
  "SuccessCount Rule Examples =
     fold (\<lambda>Example n.
       if GridsMatch (Apply Rule (Input Example)) (Output Example) then n + 1 else n) Examples 0"

definition ValidateRulesAcrossExamples :: "FTransformationRule list \<Rightarrow> FARCExample list \<Rightarrow> FTransformationRule list" where
  "ValidateRulesAcrossExamples Rules Examples =
     (let scored = map (\<lambda>Rule. Rule\<lparr>Confidence :=
                     fdiv (Fin (of_int (SuccessCount Rule Examples)))
                          (Fin (of_int (int (length Examples))))\<rparr>) Rules;
          kept = filter (\<lambda>Rule. \<not> flt (Confidence Rule) (Fin 0.5)) scored
      in Sort (\<lambda>A B. flt (Confidence B) (Confidence A)) kept)"

text \<open>
  \<^verbatim>\<open>TryDiscoverColorMapping\<close>. The loop state is \<^verbatim>\<open>ColorMap\<close> and \<^verbatim>\<open>ColorCounts\<close>; a
  count is only incremented under a key \<^verbatim>\<open>ColorMap\<close> holds, which \<^verbatim>\<open>ColorCounts\<close> then
  holds too. The new rule has the identity transform and no custom transform; its
  type and confidence are assigned.
\<close>

definition newRule :: "ETransformationType \<Rightarrow> float \<Rightarrow> FTransformationRule" where
  "newRule t c =
     \<lparr>Type = t,
      SpatialTransform = \<lparr>GetTranslation = \<lparr>X = 0, Y = 0, Z = 0\<rparr>,
                          GetRotationEuler = \<lparr>X = 0, Y = 0, Z = 0\<rparr>\<rparr>,
      ColorMap = [], CustomTransform = None, Confidence = c\<rparr>"

definition colorMapStep :: "FARCExample \<Rightarrow> int \<Rightarrow> int \<Rightarrow> TMap \<times> TMap \<Rightarrow> TMap \<times> TMap" where
  "colorMapStep Example x y st =
     (case st of (CMap, ColorCounts) \<Rightarrow>
        (let InputColor = GetCell (Input Example) x y;
             OutputColor = GetCell (Output Example) x y
         in if InputColor \<noteq> OutputColor \<and> InputColor \<ge> 0 \<and> OutputColor \<ge> 0 then
              (case map_of CMap InputColor of
                 None \<Rightarrow> (CMap @ [(InputColor, OutputColor)], ColorCounts @ [(InputColor, 1)])
               | Some c \<Rightarrow>
                   if c = OutputColor
                   then (CMap, map (\<lambda>e. if fst e = InputColor then (fst e, snd e + 1) else e) ColorCounts)
                   else (CMap, ColorCounts))
            else (CMap, ColorCounts)))"

definition discoverColorMap :: "FARCExample \<Rightarrow> TMap" where
  "discoverColorMap Example =
     fst (for_upto (min (height (Input Example)) (height (Output Example))) (\<lambda>y st.
            for_upto (min (width (Input Example)) (width (Output Example))) (\<lambda>x st.
              colorMapStep Example x y st) st)
            ([], []))"

definition TryDiscoverColorMapping :: "FARCExample \<Rightarrow> FTransformationRule list \<Rightarrow> FTransformationRule list" where
  "TryDiscoverColorMapping Example Rules =
     (let CMap = discoverColorMap Example
      in if length CMap > 0
         then Rules @ [(newRule ColorMapping (Fin 0.7))\<lparr>ColorMap := CMap\<rparr>]
         else Rules)"

section \<open>Gravitational update (NEBULA_EMERGENT_STANDALONE.cpp)\<close>

text \<open>
  \<^verbatim>\<open>struct Vector3\<close> with its operators. The \<^verbatim>\<open>float\<close> components, and every other
  \<^verbatim>\<open>float\<close> of the simulation, are modelled as real numbers: rounding, overflow to
  infinity and NaN are not modelled, and a theorem about a quotient assumes that its
  denominator is not zero.
\<close>

datatype Vector3 = Vector3 (vec_x: real) (vec_y: real) (vec_z: real)

definition vadd :: "Vector3 \<Rightarrow> Vector3 \<Rightarrow> Vector3" where
  "vadd u v = Vector3 (vec_x u + vec_x v) (vec_y u + vec_y v) (vec_z u + vec_z v)"

definition vsub :: "Vector3 \<Rightarrow> Vector3 \<Rightarrow> Vector3" where
  "vsub u v = Vector3 (vec_x u - vec_x v) (vec_y u - vec_y v) (vec_z u - vec_z v)"

definition vscale :: "Vector3 \<Rightarrow> real \<Rightarrow> Vector3" where
  "vscale u scalar = Vector3 (vec_x u * scalar) (vec_y u * scalar) (vec_z u * scalar)"

definition magnitude :: "Vector3 \<Rightarrow> real" where
  "magnitude u = sqrt (vec_x u * vec_x u + vec_y u * vec_y u + vec_z u * vec_z u)"

definition normalized :: "Vector3 \<Rightarrow> Vector3" where
  "normalized u =
     (let mag = magnitude u
      in if mag > 0.0001 then Vector3 (vec_x u / mag) (vec_y u / mag) (vec_z u / mag)
         else Vector3 0 0 0)"

datatype Color = Color real real real real

text \<open>
  \<^verbatim>\<open>struct Photon\<close>. Its fields \<open>position\<close> and the neuron's have the same name; the
  photon's is written \<open>Photon.position\<close>.
\<close>

record Photon =
  position :: Vector3
  direction :: Vector3
  energy :: Color
  wavelength :: real
  intensity :: real
  active :: bool

record Neuron =
  position :: Vector3
  velocity :: Vector3
  mass :: real
  luminosity :: real
  spectrum :: Color
  temperature :: real
  age :: real
  connections :: int
  activation :: real
  synapses :: "int list"

text \<open>
  The generator \<^verbatim>\<open>std::mt19937 rng\<close> is the sequence of the numbers its calls will
  return; a call takes the first and leaves the rest.
\<close>

type_synonym rng = "nat \<Rightarrow> nat"

definition rng_next :: "rng \<Rightarrow> nat \<times> rng" where
  "rng_next gen = (gen 0, \<lambda>k. gen (Suc k))"

definition GRAVITATIONAL_CONSTANT :: real where
  "GRAVITATIONAL_CONSTANT = 6.67430 / 10 ^ 11"

text \<open>
  One pass of the sampling loop for neuron \<open>i\<close>: a draw \<^verbatim>\<open>rng() % neurons.size()\<close>
  (the loop over \<open>i\<close> runs only when there is a neuron, so the modulus is not zero),
  \<^verbatim>\<open>continue\<close> on the neuron itself, and the force of the drawn neuron when it is
  further than 0.1 away.
\<close>

definition sampleStep :: "Neuron list \<Rightarrow> nat \<Rightarrow> Vector3 \<times> rng \<Rightarrow> Vector3 \<times> rng" where
  "sampleStep neurons i st =
     (case st of (totalForce, gen) \<Rightarrow>
        (let idx = fst (rng_next gen) mod length neurons;
             gen' = snd (rng_next gen)
         in if idx = i then (totalForce, gen')
            else
              (let r = vsub (position (neurons ! idx)) (position (neurons ! i));
                   distance = magnitude r
               in if distance > 0.1 then
                    (let force_magnitude =
                           GRAVITATIONAL_CONSTANT * mass (neurons ! i) * mass (neurons ! idx)
                             / (distance * distance)
                     in (vadd totalForce (vscale (normalized r) force_magnitude), gen'))
                  else (totalForce, gen'))))"

definition updateNeuron :: "real \<Rightarrow> nat \<Rightarrow> Neuron list \<times> rng \<Rightarrow> Neuron list \<times> rng" where
  "updateNeuron deltaTime i st =
     (case st of (neurons, gen) \<Rightarrow>
        (let sampleSize = min 100 (int (length neurons));
             sampled = for_upto sampleSize (\<lambda>j. sampleStep neurons i) (Vector3 0 0 0, gen);
             totalForce = fst sampled;
             acceleration = vscale totalForce (1 / mass (neurons ! i));
             velocity' = vadd (velocity (neurons ! i)) (vscale acceleration deltaTime);
             position' = vadd (position (neurons ! i)) (vscale velocity' deltaTime)
         in (neurons[i := (neurons ! i)\<lparr>position := position', velocity := velocity',
                                        age := age (neurons ! i) + deltaTime\<rparr>],
             snd sampled)))"

definition updateNeuronDynamics :: "real \<Rightarrow> Neuron list \<times> rng \<Rightarrow> Neuron list \<times> rng" where
  "updateNeuronDynamics deltaTime st = fold (updateNeuron deltaTime) [0..<length (fst st)] st"

subsection \<open>The rest of the frame\<close>

text \<open>
  What the class can raise: \<^verbatim>\<open>rng() % neurons.size()\<close> is an integer division, which
  traps when there is no neuron, and \<^verbatim>\<open>reserve\<close> throws \<^verbatim>\<open>std::length_error\<close> on a
  negative count.
\<close>

datatype error = DivisionByZero | LengthError

text \<open>
  \<^verbatim>\<open>uniform_dist\<close> and \<^verbatim>\<open>normal_dist\<close> are, like the generator, the sequences of the
  values their calls will return.
\<close>

type_synonym dist = "nat \<Rightarrow> real"

definition draw :: "dist \<Rightarrow> real \<times> dist" where
  "draw d = (d 0, \<lambda>k. d (Suc k))"

text \<open>
  The state of \<^verbatim>\<open>class NEBULAEmergentGalaxy\<close>. The galaxy's \<^verbatim>\<open>temperature\<close> is assigned a
  quotient whose denominator is the number of neurons, so it is a float that may be
  NaN; the neuron's field of the same name is written \<open>Neuron.temperature\<close> from here
  on.
\<close>

record NEBULAEmergentGalaxy =
  neurons :: "Neuron list"
  photons :: "Photon list"
  numNeurons :: int
  numPhotons :: int
  simulationTime :: real
  temperature :: float
  rng :: rng
  uniform_dist :: dist
  normal_dist :: dist

definition SPEED_OF_LIGHT :: real where
  "SPEED_OF_LIGHT = 299792458"

definition updateSpectrum :: "Neuron \<Rightarrow> Neuron" where
  "updateSpectrum n = n\<lparr>spectrum :=
     (if Neuron.temperature n < 3500 then Color 1 0.3 0.1 1
      else if Neuron.temperature n < 5000 then Color 1 0.8 0.4 1
      else if Neuron.temperature n < 6000 then Color 1 1 0.8 1
      else if Neuron.temperature n < 7500 then Color 0.9 0.9 1 1
      else Color 0.6 0.7 1 1)\<rparr>"

text \<open>
  The constructors. \<^verbatim>\<open>Neuron()\<close> draws a position and a velocity from a generator of
  its own; \<^verbatim>\<open>initializeGalaxy\<close>, the only place of the class where a neuron is
  constructed, assigns both before they are read, and they are zero here.
\<close>

definition newNeuron :: Neuron where
  "newNeuron = updateSpectrum
     \<lparr>Neuron.position = Vector3 0 0 0, velocity = Vector3 0 0 0, mass = 1, luminosity = 1,
      spectrum = Color 1 1 1 1, Neuron.temperature = 2700, age = 0, connections = 0,
      activation = 0, synapses = []\<rparr>"

definition newPhoton :: Photon where
  "newPhoton =
     \<lparr>Photon.position = Vector3 0 0 0, direction = Vector3 0 0 0, energy = Color 1 1 1 1,
      wavelength = 550 / 10 ^ 9, intensity = 1, active = True\<rparr>"

text \<open>
  \<^verbatim>\<open>initializeGalaxy\<close>. One pass of the neuron loop takes three values of each
  distribution, in the order of the statements; one pass of the photon loop draws
  only when there is a neuron to emit from.
\<close>

definition initNeuron :: "Neuron list \<times> dist \<times> dist \<Rightarrow> Neuron list \<times> dist \<times> dist" where
  "initNeuron st =
     (case st of (ns, uni, nor) \<Rightarrow>
        (let angle = uni 0 * 2 * pi;
             radius = \<bar>nor 0\<bar> * 500 + 100;
             height = nor 1 * 50;
             orbital_speed = sqrt (GRAVITATIONAL_CONSTANT * 10 ^ 12 / radius);
             m = uni 1 * 2 + 0.5;
             t = uni 2 * 5000 + 2000;
             n = newNeuron
                   \<lparr>Neuron.position := Vector3 (radius * cos angle) height (radius * sin angle),
                    velocity := Vector3 (- orbital_speed * sin angle) (nor 2 * 5)
                                  (orbital_speed * cos angle),
                    mass := m, Neuron.temperature := t, luminosity := m * t / 5778\<rparr>
         in (ns @ [updateSpectrum n], \<lambda>k. uni (k + 3), \<lambda>k. nor (k + 3))))"

definition initPhoton :: "Neuron list \<Rightarrow> Photon list \<times> rng \<times> dist \<Rightarrow> Photon list \<times> rng \<times> dist" where
  "initPhoton ns st =
     (case st of (ps, gen, uni) \<Rightarrow>
        if ns \<noteq> [] then
          (let sourceNeuron = fst (rng_next gen) mod length ns;
               theta = uni 0 * 2 * pi;
               phi = arccos (2 * uni 1 - 1);
               p = newPhoton
                     \<lparr>Photon.position := Neuron.position (ns ! sourceNeuron),
                      direction := Vector3 (sin phi * cos theta) (cos phi) (sin phi * sin theta),
                      energy := spectrum (ns ! sourceNeuron),
                      wavelength := 2.898 / 10 ^ 3 / Neuron.temperature (ns ! sourceNeuron),
                      intensity := luminosity (ns ! sourceNeuron)\<rparr>
           in (ps @ [p], snd (rng_next gen), \<lambda>k. uni (k + 2)))
        else (ps @ [newPhoton], gen, uni))"

definition initializeGalaxy :: "NEBULAEmergentGalaxy \<Rightarrow> error + NEBULAEmergentGalaxy" where
  "initializeGalaxy g =
     (if numNeurons g < 0 \<or> numPhotons g < 0 then Inl LengthError
      else
        (let nst = for_upto (numNeurons g) (\<lambda>i. initNeuron) ([], uniform_dist g, normal_dist g);
             pst = for_upto (numPhotons g) (\<lambda>i. initPhoton (fst nst))
                     ([], rng g, fst (snd nst))
         in Inr (g\<lparr>neurons := fst nst, photons := fst pst, rng := fst (snd pst),
                   uniform_dist := snd (snd pst), normal_dist := snd (snd nst)\<rparr>)))"

text \<open>The constructor of the class, given the seeded generator and the distributions.\<close>

definition newGalaxy :: "int \<Rightarrow> int \<Rightarrow> rng \<Rightarrow> dist \<Rightarrow> dist \<Rightarrow> error + NEBULAEmergentGalaxy" where
  "newGalaxy neuronCount photonCount gen uni nor =
     initializeGalaxy
       \<lparr>neurons = [], photons = [], numNeurons = neuronCount, numPhotons = photonCount,
        simulationTime = 0, temperature = Fin 2700, rng = gen, uniform_dist = uni,
        normal_dist = nor\<rparr>"

text \<open>
  \<^verbatim>\<open>updatePhotonPropagation\<close>. The loop over the neurons stops at the \<^verbatim>\<open>break\<close>, when the
  photon has been attenuated below 0.1.
\<close>

definition propagate :: "real \<Rightarrow> Photon \<Rightarrow> Photon" where
  "propagate deltaTime p =
     p\<lparr>Photon.position := vadd (Photon.position p) (vscale (direction p) (SPEED_OF_LIGHT * deltaTime))\<rparr>"

fun interact :: "Neuron list \<Rightarrow> Photon \<Rightarrow> Photon" where
  "interact [] photon = photon"
| "interact (neuron # rest) photon =
     (let diff = vsub (Photon.position photon) (Neuron.position neuron);
          distance = magnitude diff
      in if distance < mass neuron * 10 then
           (let photon' = photon\<lparr>intensity := intensity photon * 0.9\<rparr>
            in if intensity photon' < 0.1 then photon'\<lparr>active := False\<rparr>
               else interact rest photon')
         else interact rest photon)"

definition photonStep :: "real \<Rightarrow> Neuron list \<Rightarrow> Photon \<Rightarrow> Photon" where
  "photonStep deltaTime ns photon =
     (if \<not> active photon then photon
      else
        (let photon' = interact ns (propagate deltaTime photon)
         in if magnitude (Photon.position photon') > 10000 then photon'\<lparr>active := False\<rparr>
            else photon'))"

text \<open>
  The regeneration loop: \<^verbatim>\<open>uniform_dist(rng)\<close> is drawn for an inactive photon only,
  and \<^verbatim>\<open>rng() % neurons.size()\<close> follows without the test \<^verbatim>\<open>!neurons.empty()\<close> that
  \<^verbatim>\<open>initializeGalaxy\<close> makes.
\<close>

fun regenerate :: "Neuron list \<Rightarrow> Photon list \<Rightarrow> rng \<times> dist \<Rightarrow> error + (Photon list \<times> rng \<times> dist)" where
  "regenerate ns [] st = Inr ([], st)"
| "regenerate ns (photon # rest) st =
     (case st of (gen, uni) \<Rightarrow>
        if \<not> active photon then
          (if fst (draw uni) < 0.1 then
             (if length ns = 0 then Inl DivisionByZero
              else
                (let sourceNeuron = fst (rng_next gen) mod length ns;
                     photon' = photon\<lparr>Photon.position := Neuron.position (ns ! sourceNeuron),
                                       active := True,
                                       intensity := luminosity (ns ! sourceNeuron)\<rparr>
                 in case regenerate ns rest (snd (rng_next gen), snd (draw uni)) of
                      Inl e \<Rightarrow> Inl e
                    | Inr (ps, st') \<Rightarrow> Inr (photon' # ps, st')))
           else
             (case regenerate ns rest (gen, snd (draw uni)) of
                Inl e \<Rightarrow> Inl e
              | Inr (ps, st') \<Rightarrow> Inr (photon # ps, st')))
        else
          (case regenerate ns rest (gen, uni) of
             Inl e \<Rightarrow> Inl e
           | Inr (ps, st') \<Rightarrow> Inr (photon # ps, st')))"

text \<open>\<^verbatim>\<open>a / b\<close> on \<^verbatim>\<open>int\<close>: the quotient truncated towards zero.\<close>

definition int_div :: "int \<Rightarrow> int \<Rightarrow> int" where
  "int_div a b = sgn a * sgn b * (\<bar>a\<bar> div \<bar>b\<bar>)"

definition updatePhotonPropagation :: "real \<Rightarrow> NEBULAEmergentGalaxy \<Rightarrow> error + NEBULAEmergentGalaxy" where
  "updatePhotonPropagation deltaTime g =
     (let ps = map (photonStep deltaTime (neurons g)) (photons g);
          activePhotons = int (length (filter active ps))
      in if activePhotons < int_div (numPhotons g) 2 then
           (case regenerate (neurons g) ps (rng g, uniform_dist g) of
              Inl e \<Rightarrow> Inl e
            | Inr (ps', gen, uni) \<Rightarrow> Inr (g\<lparr>photons := ps', rng := gen, uniform_dist := uni\<rparr>))
         else Inr (g\<lparr>photons := ps\<rparr>))"

text \<open>
  \<^verbatim>\<open>updateNeuralConnections\<close> works on the array in place: neuron \<open>i\<close> reads the
  luminosity its predecessors have already been given.
\<close>

definition connectStep :: "nat \<Rightarrow> nat \<Rightarrow> Neuron list \<Rightarrow> Neuron list" where
  "connectStep i j ns =
     (if i = j then ns
      else
        (let distance = magnitude (vsub (Neuron.position (ns ! i)) (Neuron.position (ns ! j)))
         in if distance < 100 then
              ns[i := (ns ! i)\<lparr>connections := connections (ns ! i) + 1,
                               activation := activation (ns ! i)
                                  + luminosity (ns ! j) / (distance + 1)\<rparr>]
            else ns))"

definition connectNeuron :: "nat \<Rightarrow> Neuron list \<Rightarrow> Neuron list" where
  "connectNeuron i ns =
     (let ns1 = ns[i := (ns ! i)\<lparr>activation := 0, connections := 0\<rparr>];
          ns2 = fold (connectStep i) [0..<length ns1] ns1;
          ns3 = (if connections (ns2 ! i) > 0
                 then ns2[i := (ns2 ! i)\<lparr>activation :=
                             activation (ns2 ! i) / of_int (connections (ns2 ! i))\<rparr>]
                 else ns2)
      in ns3[i := (ns3 ! i)\<lparr>luminosity :=
                   luminosity (ns3 ! i) * 0.99 + activation (ns3 ! i) * 0.01\<rparr>])"

definition updateNeuralConnections :: "real \<Rightarrow> Neuron list \<Rightarrow> Neuron list" where
  "updateNeuralConnections deltaTime ns = fold connectNeuron [0..<length ns] ns"

definition evolveStar :: "real \<Rightarrow> Neuron \<Rightarrow> dist \<Rightarrow> Neuron \<times> dist" where
  "evolveStar deltaTime neuron uni =
     (let evolutionRate = mass neuron * deltaTime * 0.001;
          t = Neuron.temperature neuron + evolutionRate * (fst (draw uni) - 0.5) * 100;
          t' = max 1000 (min 50000 t);
          m = (if mass neuron > 2 then max 0.1 (mass neuron - evolutionRate * 0.01)
               else mass neuron);
          neuron' = updateSpectrum (neuron\<lparr>Neuron.temperature := t', mass := m\<rparr>)
      in (neuron'\<lparr>luminosity := m * t' / 5778\<rparr>, snd (draw uni)))"

fun updateStellarEvolution :: "real \<Rightarrow> Neuron list \<Rightarrow> dist \<Rightarrow> Neuron list \<times> dist" where
  "updateStellarEvolution deltaTime [] uni = ([], uni)"
| "updateStellarEvolution deltaTime (neuron # rest) uni =
     (let step = evolveStar deltaTime neuron uni;
          tail = updateStellarEvolution deltaTime rest (snd step)
      in (fst step # fst tail, snd tail))"

text \<open>
  \<^verbatim>\<open>detectEmergentPatterns\<close>. The radial densities and the average number of
  connections are local variables that are computed and never read; the average
  temperature is stored. The sum is divided by \<^verbatim>\<open>neurons.size()\<close> whatever it is.
\<close>

definition detectEmergentPatterns :: "NEBULAEmergentGalaxy \<Rightarrow> NEBULAEmergentGalaxy" where
  "detectEmergentPatterns g =
     (let avgTemperature = fold (\<lambda>neuron s. s + Neuron.temperature neuron) (neurons g) 0
      in g\<lparr>temperature := fdiv (Fin avgTemperature) (Fin (real (length (neurons g))))\<rparr>)"

definition evolveFrame :: "real \<Rightarrow> NEBULAEmergentGalaxy \<Rightarrow> error + NEBULAEmergentGalaxy" where
  "evolveFrame deltaTime g =
     (let g1 = g\<lparr>simulationTime := simulationTime g + deltaTime\<rparr>;
          dyn = updateNeuronDynamics deltaTime (neurons g1, rng g1);
          g2 = g1\<lparr>neurons := fst dyn, rng := snd dyn\<rparr>
      in case updatePhotonPropagation deltaTime g2 of
           Inl e \<Rightarrow> Inl e
         | Inr g3 \<Rightarrow>
             (let g4 = g3\<lparr>neurons := updateNeuralConnections deltaTime (neurons g3)\<rparr>;
                  evo = updateStellarEvolution deltaTime (neurons g4) (uniform_dist g4);
                  g5 = g4\<lparr>neurons := fst evo, uniform_dist := snd evo\<rparr>
              in Inr (detectEmergentPatterns g5)))"

text \<open>The loop of \<^verbatim>\<open>main\<close>: a number of frames, one after the other.\<close>

fun simulate :: "nat \<Rightarrow> real \<Rightarrow> NEBULAEmergentGalaxy \<Rightarrow> error + NEBULAEmergentGalaxy" where
  "simulate 0 deltaTime g = Inr g"
| "simulate (Suc n) deltaTime g =
     (case evolveFrame deltaTime g of
        Inl e \<Rightarrow> Inl e
      | Inr g' \<Rightarrow> simulate n deltaTime g')"

section \<open>Diversity controller (DiversityMaintenance.cpp)\<close>

text \<open>
  \<^verbatim>\<open>FNeuronState\<close> and \<^verbatim>\<open>FNeuronCluster\<close> are declared outside the sources; they are
  records of the fields the controller uses. \<^verbatim>\<open>IdentifyClusters\<close> is not part of the
  sources either and is a parameter.
\<close>

record FNeuronState =
  Position :: FVector
  Velocity :: FVector
  Luminosity :: real
  Energy :: real

record FNeuronCluster =
  NeuronIDs :: "nat list"

record FDiversityController =
  SystemTemperature :: real
  CoolingRate :: real
  MinTemperature :: real
  InhibitionRadius :: real
  InhibitionStrength :: real

text \<open>The member initialisers of the class.\<close>

definition newDiversityController :: FDiversityController where
  "newDiversityController =
     \<lparr>SystemTemperature = 1000, CoolingRate = 0.995, MinTemperature = 10,
      InhibitionRadius = 500, InhibitionStrength = 0.5\<rparr>"

text \<open>
  The engine's global random stream is the sequence of the values \<^verbatim>\<open>FMath::FRand()\<close>
  will return, each in the unit interval. \<^verbatim>\<open>RandRange\<close> on floats is
  \<^verbatim>\<open>Min + (Max - Min) * FRand()\<close>; on integers it is \<^verbatim>\<open>Min + RandHelper(Max - Min + 1)\<close>
  with \<^verbatim>\<open>RandHelper(A) = A > 0 ? Min(TruncToInt(FRand() * A), A - 1) : 0\<close>.
\<close>

type_synonym frand = "nat \<Rightarrow> real"

definition FRand :: "frand \<Rightarrow> real \<times> frand" where
  "FRand gen = (gen 0, \<lambda>k. gen (Suc k))"

definition RandRange :: "real \<Rightarrow> real \<Rightarrow> frand \<Rightarrow> real \<times> frand" where
  "RandRange lo hi gen = (lo + (hi - lo) * fst (FRand gen), snd (FRand gen))"

definition RandHelper :: "int \<Rightarrow> frand \<Rightarrow> int \<times> frand" where
  "RandHelper A gen =
     (if A > 0 then (min \<lfloor>fst (FRand gen) * of_int A\<rfloor> (A - 1), snd (FRand gen))
      else (0, gen))"

definition RandRangeInt :: "int \<Rightarrow> int \<Rightarrow> frand \<Rightarrow> int \<times> frand" where
  "RandRangeInt lo hi gen = (lo + fst (RandHelper (hi - lo + 1) gen), snd (RandHelper (hi - lo + 1) gen))"

text \<open>Three draws for the components of a vector, in the order X, Y, Z.\<close>

definition RandVector :: "real \<Rightarrow> real \<Rightarrow> frand \<Rightarrow> FVector \<times> frand" where
  "RandVector lo hi gen =
     (let dx = RandRange lo hi gen;
          dy = RandRange lo hi (snd dx);
          dz = RandRange lo hi (snd dy)
      in (\<lparr>X = fst dx, Y = fst dy, Z = fst dz\<rparr>, snd dz))"

definition FAdd :: "FVector \<Rightarrow> FVector \<Rightarrow> FVector" where
  "FAdd u v = \<lparr>X = X u + X v, Y = Y u + Y v, Z = Z u + Z v\<rparr>"

definition FScale :: "FVector \<Rightarrow> real \<Rightarrow> FVector" where
  "FScale u k = \<lparr>X = X u * k, Y = Y u * k, Z = Z u * k\<rparr>"

definition Dist :: "FVector \<Rightarrow> FVector \<Rightarrow> real" where
  "Dist u v = sqrt ((X u - X v)\<^sup>2 + (Y u - Y v)\<^sup>2 + (Z u - Z v)\<^sup>2)"

text \<open>\<^verbatim>\<open>FVector::GetSafeNormal\<close>: the zero vector below the tolerance \<open>1e-8\<close> of the squared length.\<close>

definition GetSafeNormal :: "FVector \<Rightarrow> FVector" where
  "GetSafeNormal u =
     (let SquareSum = X u * X u + Y u * Y u + Z u * Z u
      in if SquareSum = 1 then u
         else if SquareSum < 1 / 10 ^ 8 then \<lparr>X = 0, Y = 0, Z = 0\<rparr>
         else FScale u (1 / sqrt SquareSum))"

text \<open>\<^verbatim>\<open>FMath::Clamp\<close>.\<close>

definition Clamp :: "real \<Rightarrow> real \<Rightarrow> real \<Rightarrow> real" where
  "Clamp v lo hi = (if v < lo then lo else if v < hi then v else hi)"

definition thermalStep :: "FDiversityController \<Rightarrow> real \<Rightarrow> FNeuronState \<Rightarrow> frand \<Rightarrow> FNeuronState \<times> frand" where
  "thermalStep C DeltaTime Neuron gen =
     (let RandomForce = RandVector (- 1) 1 gen;
          NoiseMagnitude = sqrt (SystemTemperature C) * 0.01;
          Velocity' = FAdd (Velocity Neuron) (FScale (FScale (fst RandomForce) NoiseMagnitude) DeltaTime);
          draw = RandRange (- 0.1) 0.1 (snd RandomForce);
          LuminosityNoise = fst draw * SystemTemperature C / 1000;
          Luminosity' = Clamp (Luminosity Neuron * (1 + LuminosityNoise)) 0.1 100
      in (Neuron\<lparr>Velocity := Velocity', Luminosity := Luminosity'\<rparr>, snd draw))"

fun ApplyThermalNoise :: "FDiversityController \<Rightarrow> real \<Rightarrow> FNeuronState list \<Rightarrow> frand \<Rightarrow> FNeuronState list \<times> frand" where
  "ApplyThermalNoise C DeltaTime [] gen = ([], gen)"
| "ApplyThermalNoise C DeltaTime (Neuron # Neurons) gen =
     (let first = thermalStep C DeltaTime Neuron gen;
          rest = ApplyThermalNoise C DeltaTime Neurons (snd first)
      in (fst first # fst rest, snd rest))"

text \<open>
  The inhibition field: \<^verbatim>\<open>SetNum\<close> zeroes it, and every neuron \<open>i\<close> brighter than 5
  adds to the entry of every other neuron \<open>j\<close> within the inhibition radius.
\<close>

definition inhibitionStep :: "FDiversityController \<Rightarrow> FNeuronState list \<Rightarrow> nat \<Rightarrow> nat \<Rightarrow> real list \<Rightarrow> real list" where
  "inhibitionStep C Neurons i j Fld =
     (if i \<noteq> j then
        (let Distance = Dist (Position (Neurons ! i)) (Position (Neurons ! j))
         in if Distance < InhibitionRadius C then
              (let Inhibition = InhibitionStrength C * Luminosity (Neurons ! i)
                                  * exp (- Distance / InhibitionRadius C)
               in Fld[j := Fld ! j + Inhibition])
            else Fld)
      else Fld)"

definition InhibitionField :: "FDiversityController \<Rightarrow> FNeuronState list \<Rightarrow> real list" where
  "InhibitionField C Neurons =
     fold (\<lambda>i Fld.
       if Luminosity (Neurons ! i) > 5
       then fold (\<lambda>j Fld. inhibitionStep C Neurons i j Fld) [0..<length Neurons] Fld
       else Fld) [0..<length Neurons] (replicate (length Neurons) 0)"

definition inhibit :: "real \<Rightarrow> FNeuronState \<Rightarrow> frand \<Rightarrow> FNeuronState \<times> frand" where
  "inhibit Inhibition Neuron gen =
     (let Neuron' = Neuron\<lparr>Luminosity := Luminosity Neuron / (1 + Inhibition)\<rparr>
      in if Inhibition > 0.1 then
           (let draw = RandVector (- 1) 1 gen;
                RepulsionDirection = GetSafeNormal (fst draw)
            in (Neuron'\<lparr>Velocity := FAdd (Velocity Neuron')
                                       (FScale (FScale RepulsionDirection Inhibition) 10)\<rparr>,
                snd draw))
         else (Neuron', gen))"

fun applyInhibition :: "real list \<Rightarrow> FNeuronState list \<Rightarrow> frand \<Rightarrow> FNeuronState list \<times> frand" where
  "applyInhibition (Inhibition # Fld) (Neuron # Neurons) gen =
     (let first = inhibit Inhibition Neuron gen;
          rest = applyInhibition Fld Neurons (snd first)
      in (fst first # fst rest, snd rest))"
| "applyInhibition _ _ gen = ([], gen)"

definition ApplyLateralInhibition :: "FDiversityController \<Rightarrow> FNeuronState list \<Rightarrow> frand \<Rightarrow> FNeuronState list \<times> frand" where
  "ApplyLateralInhibition C Neurons gen = applyInhibition (InhibitionField C Neurons) Neurons gen"

text \<open>
  \<^verbatim>\<open>ApplyDiversityPressure\<close>. An identifier of a cluster indexes \<^verbatim>\<open>Neurons\<close>; the update
  of the model leaves the list as it is when the index is not one of the list, where
  the engine's array would stop the program.
\<close>

definition penalize :: "nat \<Rightarrow> FNeuronState list \<Rightarrow> FNeuronState list" where
  "penalize ID Neurons =
     Neurons[ID := (Neurons ! ID)\<lparr>Luminosity := Luminosity (Neurons ! ID) * 0.95,
                                  Energy := Energy (Neurons ! ID) * 0.9\<rparr>]"

definition ApplyDiversityPressure :: "(FNeuronState list \<Rightarrow> FNeuronCluster list) \<Rightarrow> FNeuronState list \<Rightarrow> FNeuronState list" where
  "ApplyDiversityPressure IdentifyClusters Neurons =
     fold (\<lambda>Cluster Neurons'.
       if int (length (NeuronIDs Cluster)) > int (length Neurons') div 10
       then fold penalize (NeuronIDs Cluster) Neurons'
       else Neurons') (IdentifyClusters Neurons) Neurons"

definition perturb :: "FNeuronState list \<times> frand \<Rightarrow> FNeuronState list \<times> frand" where
  "perturb st =
     (case st of (Neurons, gen) \<Rightarrow>
        (let pick = RandRangeInt 0 (int (length Neurons) - 1) gen;
             RandomIndex = nat (fst pick);
             RandomKick = RandVector (- 100) 100 (snd pick);
             Kicked = (Neurons ! RandomIndex)\<lparr>Velocity := FAdd (Velocity (Neurons ! RandomIndex)) (fst RandomKick)\<rparr>;
             chance = RandRange 0 1 (snd RandomKick)
         in if fst chance < 0.1 then
              (let factor = RandRange 2 5 (snd chance)
               in (Neurons[RandomIndex := Kicked\<lparr>Luminosity := Luminosity Kicked * fst factor\<rparr>],
                   snd factor))
            else (Neurons[RandomIndex := Kicked], snd chance)))"

definition ApplyRandomPerturbation :: "FNeuronState list \<Rightarrow> frand \<Rightarrow> FNeuronState list \<times> frand" where
  "ApplyRandomPerturbation Neurons gen =
     for_upto (int (length Neurons) div 100) (\<lambda>i st. perturb st) (Neurons, gen)"

definition UpdateSystemDynamics ::
    "(FNeuronState list \<Rightarrow> FNeuronCluster list) \<Rightarrow> FDiversityController \<Rightarrow> FNeuronState list
      \<Rightarrow> real \<Rightarrow> int \<Rightarrow> frand \<Rightarrow> FDiversityController \<times> FNeuronState list \<times> frand" where
  "UpdateSystemDynamics IdentifyClusters C Neurons DeltaTime IterationCount gen =
     (let noisy = ApplyThermalNoise C DeltaTime Neurons gen;
          inhibited = ApplyLateralInhibition C (fst noisy) (snd noisy);
          pressed = ApplyDiversityPressure IdentifyClusters (fst inhibited);
          perturbed = (if IterationCount mod 100 = 0
                       then ApplyRandomPerturbation pressed (snd inhibited)
                       else (pressed, snd inhibited));
          cooled = SystemTemperature C * CoolingRate C
      in (C\<lparr>SystemTemperature := max cooled (MinTemperature C)\<rparr>, fst perturbed, snd perturbed))"

section \<open>Validity oracle (ValidityOracle.cpp)\<close>

text \<open>
  Arithmetic on \<^verbatim>\<open>int32\<close>: the result is reduced to the range of a 32-bit integer in
  two's complement.
\<close>

definition int32 :: "int \<Rightarrow> int" where
  "int32 i = (i + 2 ^ 31) mod 2 ^ 32 - 2 ^ 31"

text \<open>
  \<^verbatim>\<open>CalculateGridSimilarity\<close>: the share of matching cells. \<^verbatim>\<open>Total\<close> and \<^verbatim>\<open>Matches\<close> are
  \<^verbatim>\<open>int32\<close>. On two grids of equal dimensions without cells the division is \<open>0 / 0\<close>.
\<close>

definition CalculateGridSimilarity :: "FARCGrid \<Rightarrow> FARCGrid \<Rightarrow> float" where
  "CalculateGridSimilarity A B =
     (if width A \<noteq> width B \<or> height A \<noteq> height B then Fin 0
      else
        (let Total = int32 (width A * height A);
             Matches = for_upto (height A) (\<lambda>y n.
                         for_upto (width A) (\<lambda>x n.
                           if GetCell A x y = GetCell B x y then int32 (n + 1) else n) n) (0::int)
         in fdiv (Fin (of_int Matches)) (Fin (of_int Total))))"

text \<open>
  \<^verbatim>\<open>ExtractTransformation\<close>. \<^verbatim>\<open>GetNeuron\<close> and \<^verbatim>\<open>CalculateAngularMomentum\<close> are called and
  are not part of the sources: they are parameters. The result starts as the
  identity transform. The translation is the sum of the velocities of the cluster's
  neurons, divided by their number and scaled by 100; the division by the number of
  neurons is one of real numbers here, so a theorem assumes that the cluster has a
  neuron. \<^verbatim>\<open>FQuat(FVector::UpVector, Angle)\<close> is the rotation by \<^verbatim>\<open>Angle\<close> radians about
  the \<open>Z\<close> axis, and its Euler reading is a yaw of that angle in degrees (kept here
  without the reduction to one turn).
\<close>

definition ExtractTransformation ::
    "(nat \<Rightarrow> FNeuronState) \<Rightarrow> (FNeuronCluster \<Rightarrow> real) \<Rightarrow> FNeuronCluster \<Rightarrow> FTransform" where
  "ExtractTransformation GetNeuron CalculateAngularMomentum Cluster =
     (let Result = \<lparr>GetTranslation = \<lparr>X = 0, Y = 0, Z = 0\<rparr>,
                    GetRotationEuler = \<lparr>X = 0, Y = 0, Z = 0\<rparr>\<rparr>;
          AvgVelocity = fold (\<lambda>ID V. FAdd V (Velocity (GetNeuron ID))) (NeuronIDs Cluster)
                          \<lparr>X = 0, Y = 0, Z = 0\<rparr>;
          AvgVelocity = FScale AvgVelocity (1 / real (length (NeuronIDs Cluster)));
          Result = Result\<lparr>GetTranslation := FScale AvgVelocity 100\<rparr>;
          AngularMomentum = CalculateAngularMomentum Cluster
      in if \<bar>AngularMomentum\<bar> > f32 0.01 then
           (let Angle = AngularMomentum * pi / 2
            in Result\<lparr>GetRotationEuler := \<lparr>X = 0, Y = 0, Z = Angle * 180 / pi\<rparr>\<rparr>)
         else Result)"

text \<open>
  Modelled from the spec: \<^verbatim>\<open>ApplyClusterTransform\<close>, which the oracle calls and which is
  not part of the sources. The specification says that the oracle infers ``an implied
  geometric transform (translation from mean velocity scaled to grid units; rotation
  from angular momentum quantized to 90 degree increments) and applies it to every
  training input Grid''. The grid is turned by the number of quarter turns nearest to
  the yaw of the transform, with the rotation of the transformation rules, and then
  shifted by the translation rounded to whole cells, with their translation.
\<close>

definition quarterTurns :: "FTransform \<Rightarrow> nat" where
  "quarterTurns T = nat (RoundToInt (Z (GetRotationEuler T) / 90) mod 4)"

definition ApplyClusterTransform :: "FARCGrid \<Rightarrow> FTransform \<Rightarrow> FARCGrid" where
  "ApplyClusterTransform Grid T =
     (let Rule = (newRule Translation (Fin 0))\<lparr>SpatialTransform := T\<rparr>
      in ApplyTranslation Rule ((ApplyRotation Rule ^^ quarterTurns T) Grid))"

text \<open>\<^verbatim>\<open>EvaluatePatternValidity\<close>.\<close>

definition EvaluatePatternValidity ::
    "(nat \<Rightarrow> FNeuronState) \<Rightarrow> (FNeuronCluster \<Rightarrow> real) \<Rightarrow> FNeuronCluster \<Rightarrow> FARCExample list
      \<Rightarrow> float" where
  "EvaluatePatternValidity GetNeuron CalculateAngularMomentum Cluster Examples =
     (let ClusterTransform = ExtractTransformation GetNeuron CalculateAngularMomentum Cluster;
          TotalScore = fold (\<lambda>Example Total.
                         (let Predicted = ApplyClusterTransform (Input Example) ClusterTransform;
                              Similarity = CalculateGridSimilarity Predicted (Output Example)
                          in fadd Total Similarity)) Examples (Fin 0)
      in fdiv TotalScore (Fin (real (length Examples))))"

text \<open>
  \<^verbatim>\<open>struct FARCTask\<close> (PatternDecoder.cpp): the training examples of a task and its test
  examples, whose outputs are the unknown targets. \<^verbatim>\<open>EvolveFrame\<close> hands the oracle the
  training examples.
\<close>

record FARCTask =
  TaskID :: string
  TrainingExamples :: "FARCExample list"
  TestExamples :: "FARCExample list"

section \<open>Loop invariants and test data\<close>

text \<open>The invariants of the two loops of \<^verbatim>\<open>ApplyRotation\<close>: the cells written so far.\<close>

definition rot_row_inv :: "int \<Rightarrow> int \<Rightarrow> (int \<Rightarrow> int) \<Rightarrow> FARCGrid \<Rightarrow> int \<Rightarrow> FARCGrid \<Rightarrow> bool" where
  "rot_row_inv H y cell Out0 i t \<longleftrightarrow>
     wf_grid t \<and> width t = width Out0 \<and> height t = height Out0
     \<and> (\<forall>a b. GetCell t a b =
          (if a = H - 1 - y \<and> 0 \<le> b \<and> b < i then cell b else GetCell Out0 a b))"

definition rot_inv :: "int \<Rightarrow> int \<Rightarrow> (int \<Rightarrow> int \<Rightarrow> int) \<Rightarrow> int \<Rightarrow> FARCGrid \<Rightarrow> bool" where
  "rot_inv W H cell j t \<longleftrightarrow>
     wf_grid t \<and> width t = H \<and> height t = W
     \<and> (\<forall>a b. GetCell t a b =
          (if H - j \<le> a \<and> a < H \<and> 0 \<le> b \<and> b < W then cell b (H - 1 - a)
           else GetCell (newGrid H W) a b))"

text \<open>A grid of three columns and two rows.\<close>

definition grid23 :: FARCGrid where
  "grid23 = \<lparr>data = [[1, 2, 3], [4, 5, 6]], width = 3, height = 2\<rparr>"

text \<open>
  The wording of the specification for the confidence of a rule: a predicted grid
  reproduces an expected one when the dimensions agree and every cell agrees, and
  the confidence is the share of the examples whose output the rule reproduces.
\<close>

definition reproduces_exactly :: "FARCGrid \<Rightarrow> FARCGrid \<Rightarrow> bool" where
  "reproduces_exactly Predicted Expected \<longleftrightarrow>
     width Predicted = width Expected \<and> height Predicted = height Expected
     \<and> (\<forall>y\<in>{0..<height Expected}. \<forall>x\<in>{0..<width Expected}.
           GetCell Predicted x y = GetCell Expected x y)"



text \<open>
  Test data: the example pair of \<^verbatim>\<open>ARCTestGenerator\<close> whose centre cell goes from 1 to
  2, and rules for it.
\<close>

definition example_in :: ARCGrid where
  "example_in = setCell (newGrid 3 3) 1 1 1"

definition example_out :: ARCGrid where
  "example_out = setCell (newGrid 3 3) 1 1 2"



text \<open>
  The wording of the specification for the pattern detector: a grid is a horizontal
  mirror of itself when every row reads the same from both ends.
\<close>

definition horizontal_mirror :: "ARCGrid \<Rightarrow> bool" where
  "horizontal_mirror grid \<longleftrightarrow>
     (\<forall>y\<in>{0..<height grid}. \<forall>x\<in>{0..<width grid}.
        getCell grid x y = getCell grid (width grid - 1 - x) y)"

text \<open>A test input whose only cell that is not background is the top left one.\<close>

definition test_in :: ARCGrid where
  "test_in = setCell (newGrid 3 3) 0 0 1"

text \<open>The cells of a \<open>W \<times> H\<close> grid in the order the nested loops visit them.\<close>

definition gridCells :: "int \<Rightarrow> int \<Rightarrow> (int \<times> int) list" where
  "gridCells W H = map prod.swap (List.product [0..H - 1] [0..W - 1])"

text \<open>
  The wording of the specification for a colour replacement: the output is the
  input with every cell of colour \<open>c1\<close> turned to \<open>c2\<close> and every other cell as it was,
  and \<open>c1\<close> occurs in the input.
\<close>

definition recolor :: "int \<Rightarrow> int \<Rightarrow> int \<Rightarrow> int" where
  "recolor c1 c2 v = (if v = c1 then c2 else v)"

definition recolored :: "int \<Rightarrow> int \<Rightarrow> ARCGrid \<Rightarrow> ARCGrid \<Rightarrow> bool" where
  "recolored c1 c2 inp out \<longleftrightarrow>
     wf_grid inp \<and> wf_grid out \<and> width out = width inp \<and> height out = height inp
     \<and> (\<forall>y\<in>{0..<height inp}. \<forall>x\<in>{0..<width inp}.
           getCell out x y = recolor c1 c2 (getCell inp x y))"

definition occurs :: "int \<Rightarrow> ARCGrid \<Rightarrow> bool" where
  "occurs c grid \<longleftrightarrow> (\<exists>y\<in>{0..<height grid}. \<exists>x\<in>{0..<width grid}. getCell grid x y = c)"

text \<open>
  The votes after \<open>k\<close> example pairs that each vote for \<^verbatim>\<open>color_change\<close> and perhaps for
  \<^verbatim>\<open>pattern_change\<close>.
\<close>

definition votes_inv :: "(string \<times> int) list \<Rightarrow> int \<Rightarrow> bool" where
  "votes_inv m k \<longleftrightarrow>
     (k = 0 \<and> m = []) \<or>
     (k \<ge> 1 \<and> (m = [(''color_change'', k)] \<or>
        (\<exists>j. 1 \<le> j \<and> j \<le> k \<and> m = [(''color_change'', k), (''pattern_change'', j)])))"

text \<open>
  The rule \<open>TryDiscoverColorMapping\<close> builds for the single replacement of \<open>c1\<close> by
  \<open>c2\<close>, and the example records of two vectors of grids.
\<close>

definition colorRule :: "int \<Rightarrow> int \<Rightarrow> FTransformationRule" where
  "colorRule c1 c2 = (newRule ColorMapping (Fin 0.7))\<lparr>ColorMap := [(c1, c2)]\<rparr>"

definition examplesOf :: "ARCGrid list \<Rightarrow> ARCGrid list \<Rightarrow> FARCExample list" where
  "examplesOf inputExamples outputExamples =
     map (\<lambda>ex. \<lparr>Input = fst ex, Output = snd ex\<rparr>) (zip inputExamples outputExamples)"

text \<open>
  The wording of the specification for the validity oracle: the match ratio of a
  predicted grid and an expected one is the share of the cells on which they agree,
  and 0 when their dimensions differ.
\<close>

definition match_ratio :: "FARCGrid \<Rightarrow> FARCGrid \<Rightarrow> real" where
  "match_ratio A B =
     (if width A \<noteq> width B \<or> height A \<noteq> height B then 0
      else real (card {(x, y). 0 \<le> x \<and> x < width A \<and> 0 \<le> y \<and> y < height A
                        \<and> GetCell A x y = GetCell B x y})
             / of_int (width A * height A))"

text \<open>Two training examples for the oracle: one reproduced on 8 of 9 cells, one exactly.\<close>

definition c1_examples :: "FARCExample list" where
  "c1_examples = [\<lparr>Input = example_in, Output = example_out\<rparr>,
                  \<lparr>Input = example_in, Output = example_in\<rparr>]"

text \<open>
  The wording of the specification for the validity oracle: the grid the oracle
  predicts for an example, and the arithmetic mean over the examples of the match
  ratio of the predicted grid and the training output. A pair of grids has a match
  ratio unless they have the same dimensions and no cell.
\<close>

definition predicted ::
    "(nat \<Rightarrow> FNeuronState) \<Rightarrow> (FNeuronCluster \<Rightarrow> real) \<Rightarrow> FNeuronCluster \<Rightarrow> FARCExample \<Rightarrow> FARCGrid" where
  "predicted GetNeuron AngularMomentum Cluster E =
     ApplyClusterTransform (Input E) (ExtractTransformation GetNeuron AngularMomentum Cluster)"

definition mean_match_ratio :: "(FARCExample \<Rightarrow> FARCGrid) \<Rightarrow> FARCExample list \<Rightarrow> real" where
  "mean_match_ratio P Es = sum_list (map (\<lambda>E. match_ratio (P E) (Output E)) Es) / real (length Es)"

definition has_ratio :: "FARCGrid \<Rightarrow> FARCGrid \<Rightarrow> bool" where
  "has_ratio A B \<longleftrightarrow> width A \<noteq> width B \<or> height A \<noteq> height B \<or> width A * height A \<noteq> 0"

text \<open>
  Test data for the oracle: a cluster of one neuron at rest without angular momentum,
  whose transform is the identity, and a training example of two grids without cells.
\<close>

definition resting :: "nat \<Rightarrow> FNeuronState" where
  "resting ID = \<lparr>Position = \<lparr>X = 0, Y = 0, Z = 0\<rparr>, Velocity = \<lparr>X = 0, Y = 0, Z = 0\<rparr>,
                 Luminosity = 1, Energy = 1\<rparr>"

definition no_momentum :: "FNeuronCluster \<Rightarrow> real" where
  "no_momentum Cluster = 0"

definition one_neuron :: FNeuronCluster where
  "one_neuron = \<lparr>NeuronIDs = [0]\<rparr>"

definition no_cells :: "FARCExample list" where
  "no_cells = [\<lparr>Input = newGrid 0 0, Output = newGrid 0 0\<rparr>]"

text \<open>
  Test data for the galaxy: a generator and distributions of constant values, and the
  galaxy constructed without neurons and with two photons.
\<close>

definition zero_rng :: rng where
  "zero_rng k = 0"

definition half_dist :: dist where
  "half_dist k = 1 / 2"

definition empty_galaxy :: NEBULAEmergentGalaxy where
  "empty_galaxy =
     \<lparr>neurons = [], photons = [newPhoton, newPhoton], numNeurons = 0, numPhotons = 2,
      simulationTime = 0, temperature = Fin 2700, rng = zero_rng, uniform_dist = half_dist,
      normal_dist = half_dist\<rparr>"

text \<open>
  The top-left corners, in scan order, at which a \<open>blockSize \<times> blockSize\<close> block of
  the grid equals a given block.
\<close>

definition occurrences :: "ARCGrid \<Rightarrow> int \<Rightarrow> int list list \<Rightarrow> (int \<times> int) list" where
  "occurrences grid blockSize block =
     filter (\<lambda>c. blockAt grid blockSize (fst c) (snd c) = block)
       (gridCells (width grid - blockSize + 1) (height grid - blockSize + 1))"

text \<open>Grouping a list by a key into a key-sorted map, as \<^verbatim>\<open>m[key].push_back(c)\<close> does.\<close>

definition grouped :: "('a \<Rightarrow> 'k::linorder) \<Rightarrow> 'a list \<Rightarrow> ('k \<times> 'a list) list" where
  "grouped key cs = fold (\<lambda>c m. map_modify (key c) (\<lambda>ps. ps @ [c]) [] m) cs []"

text \<open>
  A repetition pattern of the grid: the pattern the detector builds from a block that
  occurs at least twice.
\<close>

definition repetition_of :: "ARCGrid \<Rightarrow> Pattern \<Rightarrow> bool" where
  "repetition_of grid p \<longleftrightarrow>
     (\<exists>b block. 2 \<le> b \<and> 2 \<le> length (occurrences grid b block)
        \<and> p = repetitionPattern b (occurrences grid b block))"

section \<open>Loop rules\<close>

lemma for_range_empty: "n \<le> a \<Longrightarrow> for_range a n body s = s"
  by (simp add: for_range_def)

lemma for_range_step: "a < n \<Longrightarrow> for_range a n body s = body (n - 1) (for_range a (n - 1) body s)"
proof -
  assume "a < n"
  then have "[a..n - 1] = [a..n - 1 - 1] @ [n - 1]"
    using upto_rec2 [of a "n - 1"] by simp
  then show ?thesis by (simp add: for_range_def)
qed

lemma for_range_first: "a < n \<Longrightarrow> for_range a n body s = for_range (a + 1) n body (body a s)"
  by (simp add: for_range_def upto_rec1 [of a "n - 1"])

lemma for_range_induct [consumes 1, case_names base step]:
  assumes "a \<le> n" and "P a s"
    and "\<And>i t. a \<le> i \<Longrightarrow> i < n \<Longrightarrow> P i t \<Longrightarrow> P (i + 1) (body i t)"
  shows "P n (for_range a n body s)"
proof -
  have "a \<le> a + int k \<Longrightarrow> a + int k \<le> n \<Longrightarrow> P (a + int k) (for_range a (a + int k) body s)" for k
  proof (induction k)
    case 0
    then show ?case using assms(2) by (simp add: for_range_empty)
  next
    case (Suc k)
    have "for_range a (a + int (Suc k)) body s = body (a + int k) (for_range a (a + int k) body s)"
      using for_range_step [of a "a + int (Suc k)" body s] by simp
    moreover have "P (a + int k + 1) (body (a + int k) (for_range a (a + int k) body s))"
      using Suc by (intro assms(3)) auto
    ultimately show ?case by (simp add: ac_simps)
  qed
  from this [of "nat (n - a)"] assms(1) show ?thesis by simp
qed

lemma for_upto_induct [consumes 1, case_names base step]:
  assumes "0 \<le> n" and "P 0 s"
    and "\<And>i t. 0 \<le> i \<Longrightarrow> i < n \<Longrightarrow> P i t \<Longrightarrow> P (i + 1) (body i t)"
  shows "P n (for_upto n body s)"
  unfolding for_upto_def using assms by (rule for_range_induct)

lemma for_upto_empty: "n \<le> 0 \<Longrightarrow> for_upto n body s = s"
  by (simp add: for_upto_def for_range_empty)

lemma for_upto_step: "0 < n \<Longrightarrow> for_upto n body s = body (n - 1) (for_upto (n - 1) body s)"
  by (simp add: for_upto_def for_range_step)

section \<open>Grid accessors\<close>

lemma wf_newGrid: "0 \<le> w \<Longrightarrow> 0 \<le> h \<Longrightarrow> wf_grid (newGrid w h)"
  by (simp add: wf_grid_def newGrid_def list_all_iff)

lemma width_newGrid [simp]: "width (newGrid w h) = w"
  and height_newGrid [simp]: "height (newGrid w h) = h"
  by (simp_all add: newGrid_def)

lemma getCell_newGrid: "0 \<le> x \<Longrightarrow> x < w \<Longrightarrow> 0 \<le> y \<Longrightarrow> y < h \<Longrightarrow> getCell (newGrid w h) x y = 0"
  by (simp add: getCell_def newGrid_def)

lemma width_setCell [simp]: "width (setCell g x y v) = width g"
  and height_setCell [simp]: "height (setCell g x y v) = height g"
  by (simp_all add: setCell_def)

lemma wf_setCell: "wf_grid g \<Longrightarrow> wf_grid (setCell g x y v)"
  by (auto simp: wf_grid_def setCell_def list_all_iff dest!: set_update_subset_insert [THEN subsetD])

lemma wf_row_length:
  "wf_grid g \<Longrightarrow> 0 \<le> y \<Longrightarrow> y < height g \<Longrightarrow> int (length (data g ! nat y)) = width g"
  by (auto simp: wf_grid_def list_all_length)

lemma getCell_setCell:
  assumes "wf_grid g"
  shows "getCell (setCell g x y v) a b =
           (if a = x \<and> b = y \<and> 0 \<le> x \<and> x < width g \<and> 0 \<le> y \<and> y < height g then v
            else getCell g a b)"
proof (cases "0 \<le> x \<and> x < width g \<and> 0 \<le> y \<and> y < height g")
  case False
  then show ?thesis by (auto simp: setCell_def)
next
  case True
  then have y: "nat y < length (data g)" and x: "nat x < length (data g ! nat y)"
    using assms wf_row_length [of g y] by (auto simp: wf_grid_def)
  show ?thesis
  proof (cases "0 \<le> a \<and> a < width g \<and> 0 \<le> b \<and> b < height g")
    case False
    then show ?thesis using True by (auto simp: getCell_def setCell_def)
  next
    case ab: True
    then have b: "nat b < length (data g)" using assms by (auto simp: wf_grid_def)
    show ?thesis
      using True ab x y b
      by (auto simp: getCell_def setCell_def nth_list_update nat_eq_iff)
  qed
qed

lemma wf_copy: "wf_grid g \<Longrightarrow> wf_grid (copy g)"
  by (simp add: wf_grid_def copy_def newGrid_def)

lemma copy_id: "copy g = g"
  by (simp add: copy_def newGrid_def)


lemma GetCell_eq_getCell: "GetCell = getCell"
  by (intro ext) (simp add: GetCell_def getCell_def)

lemma SetCell_eq_setCell: "SetCell = setCell"
  by (intro ext) (simp add: SetCell_def setCell_def)

text \<open>
  Claim C3. For every grid and every coordinate pair outside
  \<open>[0, width) \<times> [0, height)\<close>, reading a cell (\<open>getCell\<close>, \<open>GetCell\<close>) returns the
  sentinel \<open>-1\<close>, and writing a cell (\<open>setCell\<close>, \<open>SetCell\<close>) returns the grid
  unchanged: same rows, same dimensions, hence the same value at every cell.
\<close>

theorem C3_out_of_bounds:
  assumes "\<not> (0 \<le> x \<and> x < width g \<and> 0 \<le> y \<and> y < height g)"
  shows "getCell g x y = - 1 \<and> GetCell g x y = - 1
       \<and> setCell g x y v = g \<and> SetCell g x y v = g
       \<and> (\<forall>a b. getCell (setCell g x y v) a b = getCell g a b)
       \<and> (\<forall>a b. GetCell (SetCell g x y v) a b = GetCell g a b)"
  using assms by (auto simp: getCell_def GetCell_def setCell_def SetCell_def)

theorem C3_out_of_bounds_witness:
  "\<not> (0 \<le> (3::int) \<and> (3::int) < width (newGrid 3 3) \<and> 0 \<le> (1::int) \<and> (1::int) < height (newGrid 3 3))
   \<and> getCell (newGrid 3 3) 3 1 = - 1
   \<and> GetCell (newGrid 3 3) 3 1 = - 1
   \<and> setCell (newGrid 3 3) 3 1 7 = newGrid 3 3
   \<and> SetCell (newGrid 3 3) 3 1 7 = newGrid 3 3"
  using C3_out_of_bounds [of 3 "newGrid 3 3" 1 7]
  by (simp add: newGrid_def)

section \<open>Rotation\<close>

lemma width_SetCell [simp]: "width (SetCell g x y v) = width g"
  and height_SetCell [simp]: "height (SetCell g x y v) = height g"
  by (simp_all add: SetCell_def)

lemma wf_SetCell: "wf_grid g \<Longrightarrow> wf_grid (SetCell g x y v)"
  by (simp add: SetCell_eq_setCell wf_setCell)

lemma GetCell_SetCell:
  "wf_grid g \<Longrightarrow> GetCell (SetCell g x y v) a b =
     (if a = x \<and> b = y \<and> 0 \<le> x \<and> x < width g \<and> 0 \<le> y \<and> y < height g then v
      else GetCell g a b)"
  by (simp add: SetCell_eq_setCell GetCell_eq_getCell getCell_setCell)

lemma ApplyRotation_inner:
  fixes cell :: "int \<Rightarrow> int"
  assumes wf: "wf_grid Out0" and W: "0 \<le> W" and y: "0 \<le> y" "y < H"
    and dims: "width Out0 = H" "height Out0 = W"
  shows "rot_row_inv H y cell Out0 W (for_upto W (\<lambda>x Out. SetCell Out (H - 1 - y) x (cell x)) Out0)"
  using W
proof (rule for_upto_induct [where P = "rot_row_inv H y cell Out0"])
  show "rot_row_inv H y cell Out0 0 Out0" using wf dims by (simp add: rot_row_inv_def)
next
  fix i t assume "0 \<le> i" "i < W" "rot_row_inv H y cell Out0 i t"
  then show "rot_row_inv H y cell Out0 (i + 1) (SetCell t (H - 1 - y) i (cell i))" using y dims
    by (auto simp: rot_row_inv_def wf_SetCell GetCell_SetCell)
qed

lemma ApplyRotation_outer:
  fixes cell :: "int \<Rightarrow> int \<Rightarrow> int"
  assumes "0 \<le> W" "0 \<le> H"
  shows "rot_inv W H cell H
           (for_upto H (\<lambda>y Out. for_upto W (\<lambda>x Out. SetCell Out (H - 1 - y) x (cell x y)) Out)
              (newGrid H W))"
  using assms(2)
proof (rule for_upto_induct [where P = "rot_inv W H cell"])
  show "rot_inv W H cell 0 (newGrid H W)" using assms by (simp add: rot_inv_def wf_newGrid)
next
  fix j t assume j: "0 \<le> j" "j < H" and "rot_inv W H cell j t"
  with ApplyRotation_inner [of t W j H "\<lambda>x. cell x j"] assms(1)
  show "rot_inv W H cell (j + 1) (for_upto W (\<lambda>x Out. SetCell Out (H - 1 - j) x (cell x j)) t)"
    by (auto simp: rot_inv_def rot_row_inv_def)
qed

lemma ApplyRotation_correct:
  assumes "wf_grid In"
  shows "wf_grid (ApplyRotation R In) \<and> width (ApplyRotation R In) = height In
       \<and> height (ApplyRotation R In) = width In
       \<and> (\<forall>x y. 0 \<le> x \<and> x < width In \<and> 0 \<le> y \<and> y < height In \<longrightarrow>
             GetCell (ApplyRotation R In) (height In - 1 - y) x = GetCell In x y)"
proof -
  have "0 \<le> width In" "0 \<le> height In" using assms by (auto simp: wf_grid_def)
  from ApplyRotation_outer [OF this, of "\<lambda>x y. GetCell In x y"]
  show ?thesis unfolding ApplyRotation_def by (auto simp: rot_inv_def)
qed

text \<open>
  Claim C10. For a well-formed input grid of width \<open>W\<close> and height \<open>H\<close>, a rule of
  type \<open>Rotation\<close> produces a grid of width \<open>H\<close> and height \<open>W\<close> whose cell in column
  \<open>H - 1 - y\<close>, row \<open>x\<close> is the input cell \<open>(x, y)\<close>: one quarter turn, whatever the
  rule's \<open>SpatialTransform\<close> holds.
\<close>

theorem C10_rotation:
  assumes "wf_grid In" and "Type R = Rotation"
  shows "width (Apply R In) = height In \<and> height (Apply R In) = width In
       \<and> wf_grid (Apply R In)
       \<and> (\<forall>x y. 0 \<le> x \<and> x < width In \<and> 0 \<le> y \<and> y < height In \<longrightarrow>
             GetCell (Apply R In) (height In - 1 - y) x = GetCell In x y)
       \<and> (\<forall>T. Apply (R\<lparr>SpatialTransform := T\<rparr>) In = Apply R In)"
proof -
  have "Apply R In = ApplyRotation R In" "\<And>T. Apply (R\<lparr>SpatialTransform := T\<rparr>) In = ApplyRotation R In"
    using assms(2) by (simp_all add: Apply_def ApplyRotation_def)
  then show ?thesis using ApplyRotation_correct [OF assms(1), of R] by simp
qed

theorem C10_rotation_witness:
  "wf_grid grid23 \<and> Type (newRule Rotation (Fin 1)) = Rotation
   \<and> width (Apply (newRule Rotation (Fin 1)) grid23) = 2
   \<and> height (Apply (newRule Rotation (Fin 1)) grid23) = 3
   \<and> GetCell (Apply (newRule Rotation (Fin 1)) grid23) (2 - 1 - 1) 2 = GetCell grid23 2 1
   \<and> GetCell grid23 2 1 = 6
   \<and> Apply (newRule Rotation (Fin 1)) grid23 = \<lparr>data = [[4, 1], [5, 2], [6, 3]], width = 2, height = 3\<rparr>"
proof -
  have wf: "wf_grid grid23" by (simp add: grid23_def wf_grid_def)
  have ty: "Type (newRule Rotation (Fin 1)) = Rotation" by (simp add: newRule_def)
  have ev: "Apply (newRule Rotation (Fin 1)) grid23 = \<lparr>data = [[4, 1], [5, 2], [6, 3]], width = 2, height = 3\<rparr>"
    by code_simp
  from C10_rotation [OF wf ty] have
    "0 \<le> (2::int) \<and> 2 < width grid23 \<and> 0 \<le> (1::int) \<and> 1 < height grid23 \<longrightarrow>
     GetCell (Apply (newRule Rotation (Fin 1)) grid23) (height grid23 - 1 - 1) 2 = GetCell grid23 2 1"
    by blast
  then have "GetCell (Apply (newRule Rotation (Fin 1)) grid23) (2 - 1 - 1) 2 = GetCell grid23 2 1"
    by (simp add: grid23_def)
  then show ?thesis using wf ty ev by (simp add: grid23_def GetCell_def)
qed

section \<open>Rule validation\<close>

lemma set_upto_less: "set [0..n - 1] = {0..<n::int}"
  by auto

lemma GridsMatch_iff: "GridsMatch A B \<longleftrightarrow> reproduces_exactly A B"
  by (auto simp: GridsMatch_def reproduces_exactly_def list_all_iff)

lemma count_fold:
  "fold (\<lambda>e n. if P e then n + 1 else n) xs (k::int) = k + int (length (filter P xs))"
  by (induction xs arbitrary: k) auto


lemma Apply_Confidence_update [simp]: "Apply (R\<lparr>Confidence := c\<rparr>) = Apply R"
proof
  fix In
  show "Apply (R\<lparr>Confidence := c\<rparr>) In = Apply R In"
    by (cases "Type R")
      (simp_all add: Apply_def ApplyTranslation_def ApplyRotation_def ApplyReflection_def
        ApplyColorMapping_def)
qed

lemma set_insert_by [simp]: "set (insert_by p a xs) = insert a (set xs)"
  by (induction xs) auto

lemma Sort_Nil [simp]: "Sort p [] = []"
  and Sort_Cons [simp]: "Sort p (a # xs) = insert_by p a (Sort p xs)"
  by (simp_all add: Sort_def)

lemma set_Sort [simp]: "set (Sort p xs) = set xs"
  by (induction xs) auto

lemma length_Sort [simp]: "length (Sort p xs) = length xs"
proof -
  have "length (insert_by p a ys) = Suc (length ys)" for a ys
    by (induction ys) auto
  then show ?thesis by (induction xs) auto
qed






section \<open>Colour replacement\<close>

lemma fold_concat_rows: "fold f (concat xss) s = fold (\<lambda>xs. fold f xs) xss s"
  by (induction xss arbitrary: s) auto

lemma nested_for_upto:
  "for_upto H (\<lambda>y s. for_upto W (\<lambda>x s. f x y s) s) s0
     = fold (\<lambda>c s. f (fst c) (snd c) s) (gridCells W H) s0"
  by (simp add: for_upto_def for_range_def gridCells_def product_concat_map fold_concat_rows
      fold_map comp_def)

lemma set_gridCells: "set (gridCells W H) = {(x, y). 0 \<le> x \<and> x < W \<and> 0 \<le> y \<and> y < H}"
  by (auto simp: gridCells_def)

lemma distinct_gridCells: "distinct (gridCells W H)"
  unfolding gridCells_def
  by (simp add: distinct_map distinct_product inj_on_def)

lemma fold_insert_set: "fold (\<lambda>c s. insert (g c) s) cs s0 = g ` set cs \<union> s0"
  by (induction cs arbitrary: s0) auto

lemma gridColors_eq:
  "gridColors grid = (\<lambda>c. getCell grid (fst c) (snd c)) ` set (gridCells (width grid) (height grid))"
  unfolding gridColors_def nested_for_upto
  by (simp add: fold_insert_set)

lemma recoloredD:
  assumes "recolored c1 c2 inp out" "0 \<le> x" "x < width inp" "0 \<le> y" "y < height inp"
  shows "getCell out x y = recolor c1 c2 (getCell inp x y)"
  using assms unfolding recolored_def by simp

lemma occursE:
  assumes "occurs c grid"
  obtains x y where "0 \<le> x" "x < width grid" "0 \<le> y" "y < height grid" "getCell grid x y = c"
  using assms unfolding occurs_def by force

lemma gridColors_member:
  "v \<in> gridColors grid \<longleftrightarrow>
     (\<exists>x y. 0 \<le> x \<and> x < width grid \<and> 0 \<le> y \<and> y < height grid \<and> getCell grid x y = v)"
  unfolding gridColors_eq image_iff set_gridCells by force

lemma gridColors_differ:
  assumes "recolored c1 c2 inp out" "occurs c1 inp" "c1 \<noteq> c2"
  shows "gridColors inp \<noteq> gridColors out"
proof -
  have in1: "c1 \<in> gridColors inp"
    using assms(2) unfolding gridColors_member by (elim occursE) blast
  have dims: "width out = width inp" "height out = height inp"
    using assms(1) unfolding recolored_def by simp_all
  have "c1 \<notin> gridColors out"
  proof
    assume "c1 \<in> gridColors out"
    then obtain x y where xy: "0 \<le> x" "x < width inp" "0 \<le> y" "y < height inp"
        and v: "getCell out x y = c1"
      unfolding gridColors_member dims by blast
    from recoloredD [OF assms(1) xy] v have "recolor c1 c2 (getCell inp x y) = c1" by simp
    then show False using assms(3) unfolding recolor_def by (cases "getCell inp x y = c1") simp_all
  qed
  with in1 show ?thesis by blast
qed

lemma exampleRules_recolored:
  assumes "recolored c1 c2 inp out" "occurs c1 inp" "c1 \<noteq> c2"
  shows "exampleRules inp out = [''color_change'']
       \<or> exampleRules inp out = [''color_change'', ''pattern_change'']"
  using gridColors_differ [OF assms] assms(1)
  by (simp add: exampleRules_def Let_def recolored_def)


lemma votes_step:
  assumes "votes_inv m k" "0 \<le> k"
    and "rs = [''color_change''] \<or> rs = [''color_change'', ''pattern_change'']"
  shows "votes_inv (fold (\<lambda>rule m. map_modify rule (\<lambda>n. n + 1) 0 m) rs m) (k + 1)"
  using assms unfolding votes_inv_def
  by (elim disjE conjE exE) (simp_all, presburger?)

lemma transformationRules_concat:
  "fold (\<lambda>ex rules. rules @ exampleRules (fst ex) (snd ex)) exs acc
     = acc @ concat (map (\<lambda>ex. exampleRules (fst ex) (snd ex)) exs)"
  by (induction exs arbitrary: acc) auto

lemma ruleCount_votes:
  assumes "\<forall>ex\<in>set exs. exampleRules (fst ex) (snd ex) = [''color_change'']
       \<or> exampleRules (fst ex) (snd ex) = [''color_change'', ''pattern_change'']"
  shows "votes_inv (ruleCount (concat (map (\<lambda>ex. exampleRules (fst ex) (snd ex)) exs)))
           (int (length exs))"
  using assms
proof (induction exs rule: rev_induct)
  case Nil
  show ?case by (simp add: ruleCount_def votes_inv_def)
next
  case (snoc ex exs)
  then have IH: "votes_inv (ruleCount (concat (map (\<lambda>ex. exampleRules (fst ex) (snd ex)) exs)))
           (int (length exs))" by simp
  have ex: "exampleRules (fst ex) (snd ex) = [''color_change'']
       \<or> exampleRules (fst ex) (snd ex) = [''color_change'', ''pattern_change'']"
    using snoc.prems by simp
  from votes_step [OF IH _ ex]
  show ?case by (simp add: ruleCount_def add.commute)
qed

lemma dominantRule_votes:
  assumes "votes_inv m k" "k \<ge> 1"
  shows "dominantRule m = ''color_change''"
  using assms unfolding votes_inv_def dominantRule_def by auto

lemma dominantRule_recolored:
  assumes "inputExamples \<noteq> []" "outputExamples \<noteq> []"
    and "\<forall>ex\<in>set (zip inputExamples outputExamples).
           recolored c1 c2 (fst ex) (snd ex) \<and> occurs c1 (fst ex)"
    and "c1 \<noteq> c2"
  shows "dominantRule (ruleCount (transformationRules inputExamples outputExamples)) = ''color_change''"
proof -
  let ?exs = "zip inputExamples outputExamples"
  have "\<forall>ex\<in>set ?exs. exampleRules (fst ex) (snd ex) = [''color_change'']
       \<or> exampleRules (fst ex) (snd ex) = [''color_change'', ''pattern_change'']"
    using assms(3,4) exampleRules_recolored by blast
  from ruleCount_votes [OF this]
  have "votes_inv (ruleCount (transformationRules inputExamples outputExamples)) (int (length ?exs))"
    by (simp add: transformationRules_def transformationRules_concat)
  moreover have "int (length ?exs) \<ge> 1"
    using assms(1,2) by (cases inputExamples; cases outputExamples) simp_all
  ultimately show ?thesis by (rule dominantRule_votes)
qed


lemma colorMapping_fold:
  fixes inp out :: "int \<Rightarrow> int \<Rightarrow> int"
  defines "step \<equiv> \<lambda>c m. (let inputColor = inp (fst c) (snd c); outputColor = out (fst c) (snd c)
                      in if inputColor \<noteq> outputColor then m(inputColor \<mapsto> outputColor) else m)"
  assumes "\<forall>c\<in>set cs. out (fst c) (snd c) = recolor c1 c2 (inp (fst c) (snd c))" and "c1 \<noteq> c2"
  shows "fold step cs m = (if \<exists>c\<in>set cs. inp (fst c) (snd c) = c1 then m(c1 \<mapsto> c2) else m)"
  using assms(2)
proof (induction cs arbitrary: m)
  case Nil
  show ?case by simp
next
  case (Cons c cs)
  then have c: "out (fst c) (snd c) = recolor c1 c2 (inp (fst c) (snd c))"
    and rest: "\<forall>c\<in>set cs. out (fst c) (snd c) = recolor c1 c2 (inp (fst c) (snd c))"
    by simp_all
  show ?case
  proof (cases "inp (fst c) (snd c) = c1")
    case True
    then have "step c m = m(c1 \<mapsto> c2)"
      using c assms(3) unfolding step_def Let_def recolor_def by simp
    then have "fold step (c # cs) m = fold step cs (m(c1 \<mapsto> c2))" by simp
    also have "\<dots> = m(c1 \<mapsto> c2)"
      unfolding Cons.IH [OF rest] by simp
    finally show ?thesis using True by simp
  next
    case False
    then have "step c m = m"
      using c unfolding step_def Let_def recolor_def by simp
    then have "fold step (c # cs) m = fold step cs m" by simp
    then show ?thesis unfolding Cons.IH [OF rest] using False by simp
  qed
qed

lemma colorMapping_recolored:
  assumes "recolored c1 c2 in0 out0" "occurs c1 in0" "c1 \<noteq> c2"
  shows "colorMapping (in0 # ins) (out0 # outs) = [c1 \<mapsto> c2]"
proof -
  have dims: "width out0 = width in0" "height out0 = height in0"
    using assms(1) by (simp_all add: recolored_def)
  let ?cs = "gridCells (width in0) (height in0)"
  have a: "\<forall>c\<in>set ?cs. getCell out0 (fst c) (snd c) = recolor c1 c2 (getCell in0 (fst c) (snd c))"
    using recoloredD [OF assms(1)] by (auto simp: set_gridCells)
  have b: "\<exists>c\<in>set ?cs. getCell in0 (fst c) (snd c) = c1"
    using assms(2) by (elim occursE) (force simp: set_gridCells)
  have "colorMapping (in0 # ins) (out0 # outs) =
      fold (\<lambda>c m. (let inputColor = getCell in0 (fst c) (snd c); outputColor = getCell out0 (fst c) (snd c)
                      in if inputColor \<noteq> outputColor then m(inputColor \<mapsto> outputColor) else m))
        ?cs Map.empty"
    unfolding colorMapping_def by (simp add: dims nested_for_upto)
  also have "\<dots> = [c1 \<mapsto> c2]"
    unfolding colorMapping_fold [OF a assms(3)] using b by simp
  finally show ?thesis .
qed

lemma selfmap_fold:
  fixes m :: "int \<rightharpoonup> int"
  assumes "wf_grid r0" "distinct cs"
    and "\<forall>c\<in>set cs. 0 \<le> fst c \<and> fst c < width r0 \<and> 0 \<le> snd c \<and> snd c < height r0"
  defines "step \<equiv> \<lambda>c r. (case m (getCell r (fst c) (snd c)) of
                             Some v \<Rightarrow> setCell r (fst c) (snd c) v | None \<Rightarrow> r)"
  shows "wf_grid (fold step cs r0) \<and> width (fold step cs r0) = width r0
       \<and> height (fold step cs r0) = height r0
       \<and> (\<forall>a b. getCell (fold step cs r0) a b =
            (if (a, b) \<in> set cs
             then (case m (getCell r0 a b) of Some v \<Rightarrow> v | None \<Rightarrow> getCell r0 a b)
             else getCell r0 a b))"
  using assms(1-3)
proof (induction cs arbitrary: r0)
  case Nil
  then show ?case by simp
next
  case (Cons c cs)
  let ?r = "step c r0"
  have wf: "wf_grid ?r" and dims: "width ?r = width r0" "height ?r = height r0"
    using Cons.prems(1) by (auto simp: step_def wf_setCell split: option.splits)
  have get: "getCell ?r a b =
      (if (a, b) = c then (case m (getCell r0 a b) of Some v \<Rightarrow> v | None \<Rightarrow> getCell r0 a b)
       else getCell r0 a b)" for a b
    using Cons.prems(1,3)
    by (cases c) (auto simp: step_def getCell_setCell split: option.splits)
  have "distinct cs" "c \<notin> set cs" using Cons.prems(2) by simp_all
  moreover have "\<forall>c\<in>set cs. 0 \<le> fst c \<and> fst c < width ?r \<and> 0 \<le> snd c \<and> snd c < height ?r"
    using Cons.prems(3) dims by simp
  ultimately have IH: "wf_grid (fold step cs ?r) \<and> width (fold step cs ?r) = width ?r
       \<and> height (fold step cs ?r) = height ?r
       \<and> (\<forall>a b. getCell (fold step cs ?r) a b =
            (if (a, b) \<in> set cs
             then (case m (getCell ?r a b) of Some v \<Rightarrow> v | None \<Rightarrow> getCell ?r a b)
             else getCell ?r a b))"
    using Cons.IH [OF wf] by blast
  show ?case
  proof (intro conjI allI)
    fix a b
    show "getCell (fold step (c # cs) r0) a b =
            (if (a, b) \<in> set (c # cs)
             then (case m (getCell r0 a b) of Some v \<Rightarrow> v | None \<Rightarrow> getCell r0 a b)
             else getCell r0 a b)"
      using IH get [of a b] \<open>c \<notin> set cs\<close>
      by (cases "(a, b) = c") (auto split: option.splits)
  qed (use IH dims in simp_all)
qed

lemma applyColorMapping_recolored:
  assumes "wf_grid t"
  shows "recolored c1 c2 t (applyColorMapping [c1 \<mapsto> c2] t)"
proof -
  let ?cs = "gridCells (width t) (height t)"
  have b: "\<forall>c\<in>set ?cs. 0 \<le> fst c \<and> fst c < width t \<and> 0 \<le> snd c \<and> snd c < height t"
    by (auto simp: set_gridCells)
  from selfmap_fold [OF assms distinct_gridCells b, of "[c1 \<mapsto> c2]"]
  show ?thesis
    unfolding recolored_def applyColorMapping_def nested_for_upto copy_id
    using assms by (simp add: set_gridCells recolor_def)
qed

lemma solveTransformation_recolored:
  assumes "inputExamples \<noteq> []" "outputExamples \<noteq> []"
    and "\<forall>ex\<in>set (zip inputExamples outputExamples).
           recolored c1 c2 (fst ex) (snd ex) \<and> occurs c1 (fst ex)"
    and "c1 \<noteq> c2" and "wf_grid testInput"
  shows "recolored c1 c2 testInput (solveTransformation inputExamples outputExamples testInput)"
proof -
  obtain in0 ins out0 outs where io: "inputExamples = in0 # ins" "outputExamples = out0 # outs"
    using assms(1,2) by (cases inputExamples; cases outputExamples) auto
  then have first: "recolored c1 c2 in0 out0" "occurs c1 in0" using assms(3) by auto
  have "solveTransformation inputExamples outputExamples testInput =
          applyColorMapping (colorMapping inputExamples outputExamples) testInput"
    unfolding solveTransformation_def dominantRule_recolored [OF assms(1-4)]
    by (simp add: applyTransformation_def)
  also have "\<dots> = applyColorMapping [c1 \<mapsto> c2] testInput"
    unfolding io colorMapping_recolored [OF first assms(4)] ..
  finally show ?thesis using applyColorMapping_recolored [OF assms(5)] by simp
qed


lemma colorMapStep_recolored:
  assumes "GetCell (Output E) x y = recolor c1 c2 (GetCell (Input E) x y)"
    and "c1 \<noteq> c2" "0 \<le> c1" "0 \<le> c2"
    and "fst st = [] \<or> fst st = [(c1, c2)]"
  shows "fst (colorMapStep E x y st) =
           (if GetCell (Input E) x y = c1 then [(c1, c2)] else fst st)"
  using assms
  by (cases st) (auto simp: colorMapStep_def Let_def recolor_def)

lemma discoverColorMap_fold:
  assumes "\<forall>c\<in>set cs. GetCell (Output E) (fst c) (snd c) = recolor c1 c2 (GetCell (Input E) (fst c) (snd c))"
    and "c1 \<noteq> c2" "0 \<le> c1" "0 \<le> c2"
    and "fst st = [] \<or> fst st = [(c1, c2)]"
  shows "fst (fold (\<lambda>c st. colorMapStep E (fst c) (snd c) st) cs st) =
           (if \<exists>c\<in>set cs. GetCell (Input E) (fst c) (snd c) = c1 then [(c1, c2)] else fst st)"
  using assms(1,5)
proof (induction cs arbitrary: st)
  case Nil
  show ?case by simp
next
  case (Cons c cs)
  let ?st = "colorMapStep E (fst c) (snd c) st"
  have c: "GetCell (Output E) (fst c) (snd c) = recolor c1 c2 (GetCell (Input E) (fst c) (snd c))"
    and rest: "\<forall>c\<in>set cs. GetCell (Output E) (fst c) (snd c) = recolor c1 c2 (GetCell (Input E) (fst c) (snd c))"
    using Cons.prems(1) by simp_all
  have step: "fst ?st = (if GetCell (Input E) (fst c) (snd c) = c1 then [(c1, c2)] else fst st)"
    by (rule colorMapStep_recolored [OF c assms(2-4) Cons.prems(2)])
  then have inv: "fst ?st = [] \<or> fst ?st = [(c1, c2)]" using Cons.prems(2) by auto
  have "fst (fold (\<lambda>c st. colorMapStep E (fst c) (snd c) st) (c # cs) st) =
        (if \<exists>c\<in>set cs. GetCell (Input E) (fst c) (snd c) = c1 then [(c1, c2)] else fst ?st)"
    using Cons.IH [OF rest inv] by simp
  then show ?case unfolding step by auto
qed

lemma discoverColorMap_recolored:
  assumes "recolored c1 c2 (Input E) (Output E)" "occurs c1 (Input E)"
    and "c1 \<noteq> c2" "0 \<le> c1" "0 \<le> c2"
  shows "discoverColorMap E = [(c1, c2)]"
proof -
  have dims: "width (Output E) = width (Input E)" "height (Output E) = height (Input E)"
    using assms(1) by (simp_all add: recolored_def)
  let ?cs = "gridCells (width (Input E)) (height (Input E))"
  have a: "\<forall>c\<in>set ?cs. GetCell (Output E) (fst c) (snd c) = recolor c1 c2 (GetCell (Input E) (fst c) (snd c))"
    using recoloredD [OF assms(1)] by (auto simp: set_gridCells GetCell_eq_getCell)
  have b: "\<exists>c\<in>set ?cs. GetCell (Input E) (fst c) (snd c) = c1"
    using assms(2) by (elim occursE) (force simp: set_gridCells GetCell_eq_getCell)
  have "discoverColorMap E = fst (fold (\<lambda>c st. colorMapStep E (fst c) (snd c) st) ?cs ([], []))"
    unfolding discoverColorMap_def by (simp add: dims nested_for_upto)
  also have "\<dots> = [(c1, c2)]"
    using discoverColorMap_fold [OF a assms(3-5), of "([], [])"] b by simp
  finally show ?thesis .
qed

lemma TryDiscoverColorMapping_recolored:
  assumes "recolored c1 c2 (Input E) (Output E)" "occurs c1 (Input E)"
    and "c1 \<noteq> c2" "0 \<le> c1" "0 \<le> c2"
  shows "TryDiscoverColorMapping E Rules = Rules @ [colorRule c1 c2]"
  by (simp add: TryDiscoverColorMapping_def Let_def discoverColorMap_recolored [OF assms]
      colorRule_def)

lemma write_fold:
  fixes v :: "int \<times> int \<Rightarrow> int"
  assumes "wf_grid r0"
    and "\<forall>c\<in>set cs. 0 \<le> fst c \<and> fst c < width r0 \<and> 0 \<le> snd c \<and> snd c < height r0"
  defines "step \<equiv> \<lambda>c r. setCell r (fst c) (snd c) (v c)"
  shows "wf_grid (fold step cs r0) \<and> width (fold step cs r0) = width r0
       \<and> height (fold step cs r0) = height r0
       \<and> (\<forall>a b. getCell (fold step cs r0) a b =
            (if (a, b) \<in> set cs then v (a, b) else getCell r0 a b))"
  using assms(1,2)
proof (induction cs arbitrary: r0)
  case Nil
  then show ?case by simp
next
  case (Cons c cs)
  let ?r = "step c r0"
  have wf: "wf_grid ?r" and dims: "width ?r = width r0" "height ?r = height r0"
    using Cons.prems(1) by (simp_all add: step_def wf_setCell)
  have get: "getCell ?r a b = (if (a, b) = c then v c else getCell r0 a b)" for a b
    using Cons.prems by (cases c) (auto simp: step_def getCell_setCell)
  have "\<forall>c\<in>set cs. 0 \<le> fst c \<and> fst c < width ?r \<and> 0 \<le> snd c \<and> snd c < height ?r"
    using Cons.prems(2) dims by simp
  from Cons.IH [OF wf this]
  have IH: "wf_grid (fold step cs ?r) \<and> width (fold step cs ?r) = width ?r
       \<and> height (fold step cs ?r) = height ?r
       \<and> (\<forall>a b. getCell (fold step cs ?r) a b =
            (if (a, b) \<in> set cs then v (a, b) else getCell ?r a b))" .
  show ?case
  proof (intro conjI allI)
    fix a b
    show "getCell (fold step (c # cs) r0) a b =
            (if (a, b) \<in> set (c # cs) then v (a, b) else getCell r0 a b)"
      using IH get [of a b] by (cases "(a, b) = c") auto
  qed (use IH dims in simp_all)
qed

lemma ApplyColorMapping_recolored:
  assumes "wf_grid t" and "ColorMap R = [(c1, c2)]"
  shows "recolored c1 c2 t (ApplyColorMapping R t)"
proof -
  let ?cs = "gridCells (width t) (height t)"
  let ?v = "\<lambda>c. recolor c1 c2 (getCell t (fst c) (snd c))"
  have W: "0 \<le> width t" "0 \<le> height t" using assms(1) by (simp_all add: wf_grid_def)
  have b: "\<forall>c\<in>set ?cs. 0 \<le> fst c \<and> fst c < width (newGrid (width t) (height t))
        \<and> 0 \<le> snd c \<and> snd c < height (newGrid (width t) (height t))"
    by (auto simp: set_gridCells)
  have eq: "(case map_of [(c1, c2)] u of Some c \<Rightarrow> c | None \<Rightarrow> u) = recolor c1 c2 u" for u
    by (simp add: recolor_def)
  have "ApplyColorMapping R t =
      fold (\<lambda>c r. setCell r (fst c) (snd c) (?v c)) ?cs (newGrid (width t) (height t))"
    unfolding ApplyColorMapping_def nested_for_upto Let_def assms(2) eq
      GetCell_eq_getCell SetCell_eq_setCell ..
  with write_fold [OF wf_newGrid [OF W] b, of ?v]
  show ?thesis
    unfolding recolored_def using assms(1) by (simp add: set_gridCells)
qed

lemma GridsMatch_recolored:
  assumes "recolored c1 c2 inp out" "recolored c1 c2 inp out'"
  shows "GridsMatch out' out"
  using assms unfolding GridsMatch_iff reproduces_exactly_def recolored_def
  by (simp add: GetCell_eq_getCell)

lemma Validate_colorRule:
  assumes "Examples \<noteq> []"
    and "\<forall>E\<in>set Examples. recolored c1 c2 (Input E) (Output E)"
  shows "ValidateRulesAcrossExamples [colorRule c1 c2] Examples = [(colorRule c1 c2)\<lparr>Confidence := Fin 1\<rparr>]"
proof -
  have ap: "Apply (colorRule c1 c2) g = ApplyColorMapping (colorRule c1 c2) g" for g
    by (simp add: Apply_def colorRule_def newRule_def)
  have "GridsMatch (Apply (colorRule c1 c2) (Input E)) (Output E)" if "E \<in> set Examples" for E
  proof -
    have r: "recolored c1 c2 (Input E) (Output E)" using assms(2) that by blast
    then have "wf_grid (Input E)" by (simp add: recolored_def)
    from ApplyColorMapping_recolored [OF this, of "colorRule c1 c2" c1 c2]
    have "recolored c1 c2 (Input E) (Apply (colorRule c1 c2) (Input E))"
      unfolding ap by (simp add: colorRule_def)
    with r show ?thesis by (rule GridsMatch_recolored)
  qed
  then have "filter (\<lambda>E. GridsMatch (Apply (colorRule c1 c2) (Input E)) (Output E)) Examples = Examples"
    by (simp add: filter_id_conv)
  then have "SuccessCount (colorRule c1 c2) Examples = int (length Examples)"
    by (simp add: SuccessCount_def count_fold)
  then show ?thesis using assms(1)
    by (simp add: ValidateRulesAcrossExamples_def Let_def)
qed

lemma solve_example:
  "solveTransformation [example_in, example_in] [example_out, example_out] test_in
     = setCell test_in 0 0 2"
  by code_simp

lemma recolored_list:
  "recolored c1 c2 inp out \<longleftrightarrow>
     wf_grid inp \<and> wf_grid out \<and> width out = width inp \<and> height out = height inp
     \<and> list_all (\<lambda>y. list_all (\<lambda>x. getCell out x y = recolor c1 c2 (getCell inp x y))
          [0..width inp - 1]) [0..height inp - 1]"
  unfolding recolored_def list_all_iff set_upto_less ..

lemma occurs_list:
  "occurs c grid \<longleftrightarrow>
     list_ex (\<lambda>y. list_ex (\<lambda>x. getCell grid x y = c) [0..width grid - 1]) [0..height grid - 1]"
  unfolding occurs_def list_ex_iff set_upto_less ..

text \<open>
  Claim C4. Let every training pair be a grid and the same grid with every cell of
  colour \<open>c1\<close> turned to another colour \<open>c2\<close>, \<open>c1\<close> occurring in every training input.
  Then \<open>solveTransformation\<close> returns the test input with \<open>c1\<close> turned to \<open>c2\<close> and
  every other cell unchanged; \<open>TryDiscoverColorMapping\<close> discovers from every pair
  the rule whose map is \<open>c1 \<mapsto> c2\<close> alone, that rule does the same to the test input,
  and validation gives it the confidence 1. For the two examples whose centre cell
  goes from 1 to 2, the test input with the single cell \<open>(0, 0) = 1\<close> is returned
  with \<open>(0, 0) = 2\<close> and nothing else changed.
\<close>

theorem C4_color_mapping:
  assumes "c1 \<noteq> c2" "0 \<le> c1" "0 \<le> c2"
    and "inputExamples \<noteq> []" "outputExamples \<noteq> []"
    and "\<forall>ex\<in>set (zip inputExamples outputExamples).
           recolored c1 c2 (fst ex) (snd ex) \<and> occurs c1 (fst ex)"
    and "wf_grid testInput"
  shows "recolored c1 c2 testInput (solveTransformation inputExamples outputExamples testInput)
       \<and> (\<forall>E\<in>set (examplesOf inputExamples outputExamples).
             TryDiscoverColorMapping E [] = [colorRule c1 c2])
       \<and> recolored c1 c2 testInput (Apply (colorRule c1 c2) testInput)
       \<and> ValidateRulesAcrossExamples [colorRule c1 c2] (examplesOf inputExamples outputExamples)
            = [(colorRule c1 c2)\<lparr>Confidence := Fin 1\<rparr>]
       \<and> solveTransformation [example_in, example_in] [example_out, example_out] test_in
            = setCell test_in 0 0 2"
proof (intro conjI ballI)
  show "recolored c1 c2 testInput (solveTransformation inputExamples outputExamples testInput)"
    by (rule solveTransformation_recolored [OF assms(4,5,6,1,7)])
next
  fix E assume "E \<in> set (examplesOf inputExamples outputExamples)"
  then have "recolored c1 c2 (Input E) (Output E)" "occurs c1 (Input E)"
    using assms(6) by (auto simp: examplesOf_def)
  from TryDiscoverColorMapping_recolored [OF this assms(1-3), of "[]"]
  show "TryDiscoverColorMapping E [] = [colorRule c1 c2]" by simp
next
  have "Apply (colorRule c1 c2) testInput = ApplyColorMapping (colorRule c1 c2) testInput"
    by (simp add: Apply_def colorRule_def newRule_def)
  with ApplyColorMapping_recolored [OF assms(7), of "colorRule c1 c2" c1 c2]
  show "recolored c1 c2 testInput (Apply (colorRule c1 c2) testInput)"
    by (simp add: colorRule_def)
next
  have ne: "examplesOf inputExamples outputExamples \<noteq> []"
    using assms(4,5) by (cases inputExamples; cases outputExamples) (simp_all add: examplesOf_def)
  have "\<forall>E\<in>set (examplesOf inputExamples outputExamples). recolored c1 c2 (Input E) (Output E)"
    using assms(6) by (auto simp: examplesOf_def)
  from Validate_colorRule [OF ne this]
  show "ValidateRulesAcrossExamples [colorRule c1 c2] (examplesOf inputExamples outputExamples)
            = [(colorRule c1 c2)\<lparr>Confidence := Fin 1\<rparr>]" .
next
  show "solveTransformation [example_in, example_in] [example_out, example_out] test_in
            = setCell test_in 0 0 2"
    by (rule solve_example)
qed


theorem C4_color_mapping_witness:
  "(1::int) \<noteq> 2 \<and> (0::int) \<le> 1 \<and> (0::int) \<le> 2
   \<and> [example_in, example_in] \<noteq> [] \<and> [example_out, example_out] \<noteq> []
   \<and> recolored 1 2 example_in example_out \<and> occurs 1 example_in \<and> wf_grid test_in
   \<and> recolored 1 2 test_in
        (solveTransformation [example_in, example_in] [example_out, example_out] test_in)
   \<and> getCell (solveTransformation [example_in, example_in] [example_out, example_out] test_in) 0 0 = 2
   \<and> getCell (solveTransformation [example_in, example_in] [example_out, example_out] test_in) 1 1 = 0
   \<and> TryDiscoverColorMapping \<lparr>Input = example_in, Output = example_out\<rparr> [] = [colorRule 1 2]
   \<and> ValidateRulesAcrossExamples [colorRule 1 2]
        (examplesOf [example_in, example_in] [example_out, example_out])
        = [(colorRule 1 2)\<lparr>Confidence := Fin 1\<rparr>]"
proof -
  let ?ins = "[example_in, example_in]" and ?outs = "[example_out, example_out]"
  have r: "recolored 1 2 example_in example_out" unfolding recolored_list by code_simp
  have o: "occurs 1 example_in" unfolding occurs_list by code_simp
  have w: "wf_grid test_in" by code_simp
  have z: "\<forall>ex\<in>set (zip ?ins ?outs). recolored 1 2 (fst ex) (snd ex) \<and> occurs 1 (fst ex)"
    using r o by simp
  have g: "getCell (setCell test_in 0 0 2) 0 0 = 2" "getCell (setCell test_in 0 0 2) 1 1 = 0"
    by code_simp+
  have n: "(1::int) \<noteq> 2" "(0::int) \<le> 1" "(0::int) \<le> 2" "?ins \<noteq> []" "?outs \<noteq> []"
    by simp_all
  note T = C4_color_mapping [of 1 2 ?ins ?outs test_in, OF n z w]
  have A: "recolored 1 2 test_in (solveTransformation ?ins ?outs test_in)"
    using T by (rule conjunct1)
  have B: "\<forall>E\<in>set (examplesOf ?ins ?outs). TryDiscoverColorMapping E [] = [colorRule 1 2]"
    using T by (elim conjE)
  have D: "ValidateRulesAcrossExamples [colorRule 1 2] (examplesOf ?ins ?outs)
             = [(colorRule 1 2)\<lparr>Confidence := Fin 1\<rparr>]"
    using T by (elim conjE)
  have E: "solveTransformation ?ins ?outs test_in = setCell test_in 0 0 2"
    using T by (elim conjE)
  have G: "getCell (solveTransformation ?ins ?outs test_in) 0 0 = 2"
    "getCell (solveTransformation ?ins ?outs test_in) 1 1 = 0"
    unfolding E by (rule g)+
  have B': "TryDiscoverColorMapping \<lparr>Input = example_in, Output = example_out\<rparr> [] = [colorRule 1 2]"
    using B by (simp add: examplesOf_def)
  from n r o w A G B' D show ?thesis by (intro conjI)
qed

section \<open>Pattern detector\<close>

lemma for_range_invariant:
  assumes "P s" and "\<And>i t. a \<le> i \<Longrightarrow> i < n \<Longrightarrow> P t \<Longrightarrow> P (body i t)"
  shows "P (for_range a n body s)"
  unfolding for_range_def
  by (rule fold_invariant [where Q = "\<lambda>i. a \<le> i \<and> i < n"]) (use assms in auto)

lemma for_upto_invariant:
  assumes "P s" and "\<And>i t. 0 \<le> i \<Longrightarrow> i < n \<Longrightarrow> P t \<Longrightarrow> P (body i t)"
  shows "P (for_upto n body s)"
  unfolding for_upto_def using assms by (rule for_range_invariant)

lemma fold_invariant_all:
  assumes "P s" and "\<And>x t. P t \<Longrightarrow> P (f x t)"
  shows "P (fold f xs s)"
  by (rule fold_invariant [where Q = "\<lambda>_. True"]) (use assms in auto)

lemma fold_concat_rows0: "fold f (concat xss) s = fold (\<lambda>xs. fold f xs) xss s"
  by (induction xss arbitrary: s) auto

lemma nested_for_upto0:
  "for_upto H (\<lambda>y s. for_upto W (\<lambda>x s. f x y s) s) s0
     = fold (\<lambda>c s. f (fst c) (snd c) s) (gridCells W H) s0"
  by (simp add: for_upto_def for_range_def gridCells_def product_concat_map fold_concat_rows0
      fold_map comp_def)



lemma rectangleAt_patterns:
  assumes "\<forall>p\<in>set rs. type p = ''rectangle'' \<and> confidence p = f32 0.8"
  shows "\<forall>p\<in>set (rectangleAt grid c cells i j rs). type p = ''rectangle'' \<and> confidence p = f32 0.8"
  using assms by (auto simp: rectangleAt_def Let_def)

lemma detectRectangles_patterns:
  "\<forall>p\<in>set (detectRectangles grid). type p = ''rectangle'' \<and> confidence p = f32 0.8"
proof -
  let ?P = "\<lambda>rs::Pattern list. \<forall>p\<in>set rs. type p = ''rectangle'' \<and> confidence p = f32 0.8"
  have inner: "?P (fold (\<lambda>j rectangles. rectangleAt grid c cells i j rectangles) js rs)"
    if "?P rs" for c cells i js rs
  proof (rule fold_invariant_all [where P = ?P])
    show "?P rs" by fact
  next
    fix j t assume "?P t"
    then show "?P (rectangleAt grid c cells i j t)" by (rule rectangleAt_patterns)
  qed
  have middle: "?P (fold (\<lambda>i rectangles.
               fold (\<lambda>j rectangles. rectangleAt grid c cells i j rectangles)
                 [Suc i..<length cells] rectangles) ks rs)"
    if "?P rs" for c cells ks rs
  proof (rule fold_invariant_all [where P = ?P])
    show "?P rs" by fact
  next
    fix i t assume "?P t"
    then show "?P (fold (\<lambda>j rectangles. rectangleAt grid c cells i j rectangles)
                 [Suc i..<length cells] t)" by (rule inner)
  qed
  show ?thesis
    unfolding detectRectangles_def
  proof (rule fold_invariant_all [where P = ?P])
    show "?P []" by simp
  next
    fix c t assume t: "?P t"
    show "?P (let cells = colorCells grid c
        in if length cells \<ge> 4 then
             fold (\<lambda>i rectangles.
               fold (\<lambda>j rectangles. rectangleAt grid c cells i j rectangles)
                 [Suc i..<length cells] rectangles)
               [0..<length cells] t
           else t)"
      unfolding Let_def
      using middle [OF t, of c "colorCells grid c" "[0..<length (colorCells grid c)]"] t
      by (cases "4 \<le> length (colorCells grid c)") simp_all
  qed
qed

lemma scanStep_patterns:
  assumes "\<forall>p\<in>set (fst st). type p \<in> T \<and> confidence p = f32 0.7" and "ty \<in> T"
  shows "\<forall>p\<in>set (fst (scanStep ty n cell pos k st)). type p \<in> T \<and> confidence p = f32 0.7"
  using assms by (auto simp: scanStep_def Let_def split: prod.splits)

lemma scanLine_patterns:
  assumes "\<forall>p\<in>set lines. type p \<in> T \<and> confidence p = f32 0.7" and "ty \<in> T"
  shows "\<forall>p\<in>set (scanLine ty n cell pos lines). type p \<in> T \<and> confidence p = f32 0.7"
proof -
  let ?P = "\<lambda>st::Pattern list \<times> int \<times> int. \<forall>p\<in>set (fst st). type p \<in> T \<and> confidence p = f32 0.7"
  have "?P (for_upto (n + 1) (scanStep ty n cell pos) (lines, - 1, - 1))"
  proof (rule for_upto_invariant [where P = ?P])
    show "?P (lines, - 1, - 1)" using assms(1) by simp
  next
    fix i t assume "?P t"
    then show "?P (scanStep ty n cell pos i t)" using assms(2) by (rule scanStep_patterns)
  qed
  then show ?thesis by (simp add: scanLine_def)
qed

lemma detectLines_patterns:
  "\<forall>p\<in>set (detectLines grid).
     type p \<in> {''horizontal_line'', ''vertical_line''} \<and> confidence p = f32 0.7"
proof -
  let ?T = "{''horizontal_line'', ''vertical_line''}"
  let ?P = "\<lambda>ls::Pattern list. \<forall>p\<in>set ls. type p \<in> ?T \<and> confidence p = f32 0.7"
  have h: "?P (for_upto (height grid) (\<lambda>y lines.
              scanLine ''horizontal_line'' (width grid) (\<lambda>x. getCell grid x y) (\<lambda>lx. (lx, y)) lines) [])"
  proof (rule for_upto_invariant [where P = ?P])
    show "?P []" by simp
  next
    fix y t assume "?P t"
    then show "?P (scanLine ''horizontal_line'' (width grid) (\<lambda>x. getCell grid x y) (\<lambda>lx. (lx, y)) t)"
      by (rule scanLine_patterns) simp
  qed
  show ?thesis
    unfolding detectLines_def Let_def
  proof (rule for_upto_invariant [where P = ?P])
    show "?P (for_upto (height grid) (\<lambda>y lines.
              scanLine ''horizontal_line'' (width grid) (\<lambda>x. getCell grid x y) (\<lambda>lx. (lx, y)) lines) [])"
      by (rule h)
  next
    fix x t assume "?P t"
    then show "?P (scanLine ''vertical_line'' (height grid) (\<lambda>y. getCell grid x y) (\<lambda>ly. (x, ly)) t)"
      by (rule scanLine_patterns) simp
  qed
qed

text \<open>Ordered maps\<close>

lemma keys_map_modify: "fst ` set (map_modify k f d m) = insert k (fst ` set m)"
proof (induction m)
  case Nil
  show ?case by simp
next
  case (Cons e m)
  obtain k' v where e: "e = (k', v)" by (cases e)
  show ?case
  proof (cases "k = k'")
    case True
    then show ?thesis by (simp add: e insert_absorb)
  next
    case False
    show ?thesis
    proof (cases "k < k'")
      case True
      then show ?thesis using False by (simp add: e)
    next
      case ge: False
      then show ?thesis using False Cons.IH by (simp add: e insert_commute)
    qed
  qed
qed

lemma sorted_map_modify:
  "sorted_wrt (<) (map fst m) \<Longrightarrow> sorted_wrt (<) (map fst (map_modify k f d m))"
proof (induction m)
  case Nil
  show ?case by simp
next
  case (Cons e m)
  obtain k' v where e: "e = (k', v)" by (cases e)
  have tl: "sorted_wrt (<) (map fst m)" and hd: "\<forall>x\<in>fst ` set m. k' < x"
    using Cons.prems by (auto simp: e)
  show ?case
  proof (cases "k = k'")
    case True
    then show ?thesis using Cons.prems by (simp add: e)
  next
    case False
    show ?thesis
    proof (cases "k < k'")
      case True
      then show ?thesis using Cons.prems hd by (auto simp: e)
    next
      case ge: False
      with False have "k' < k" by simp
      moreover have "sorted_wrt (<) (map fst (map_modify k f d m))" by (rule Cons.IH [OF tl])
      moreover have "\<forall>x\<in>fst ` set (map_modify k f d m). k' < x"
        unfolding keys_map_modify using hd \<open>k' < k\<close> by simp
      ultimately show ?thesis using False ge by (simp add: e)
    qed
  qed
qed

lemma map_of_map_modify:
  "sorted_wrt (<) (map fst m) \<Longrightarrow>
     map_of (map_modify k f d m) =
       (map_of m)(k \<mapsto> f (case map_of m k of None \<Rightarrow> d | Some v \<Rightarrow> v))"
proof (induction m)
  case Nil
  show ?case by simp
next
  case (Cons e m)
  obtain k' v where e: "e = (k', v)" by (cases e)
  have tl: "sorted_wrt (<) (map fst m)" and hd: "\<forall>x\<in>fst ` set m. k' < x"
    using Cons.prems by (auto simp: e)
  show ?case
  proof (cases "k = k'")
    case True
    then show ?thesis by (auto simp: e fun_eq_iff)
  next
    case False
    show ?thesis
    proof (cases "k < k'")
      case True
      then have "k \<notin> fst ` set m" using hd by force
      then have "map_of m k = None" by (simp add: map_of_eq_None_iff)
      then show ?thesis using True False by (auto simp: e fun_eq_iff)
    next
      case ge: False
      have "map_of (map_modify k f d (e # m)) = (map_of (map_modify k f d m))(k' \<mapsto> v)"
        using False ge by (simp add: e)
      also have "\<dots> = ((map_of m)(k \<mapsto> f (case map_of m k of None \<Rightarrow> d | Some v \<Rightarrow> v)))(k' \<mapsto> v)"
        unfolding Cons.IH [OF tl] ..
      also have "\<dots> = ((map_of m)(k' \<mapsto> v))(k \<mapsto> f (case map_of m k of None \<Rightarrow> d | Some v \<Rightarrow> v))"
        using False by (simp add: fun_upd_twist)
      finally show ?thesis using False by (auto simp: e fun_eq_iff)
    qed
  qed
qed

lemma grouping:
  "sorted_wrt (<) (map fst (grouped key cs))
       \<and> map_of (grouped key cs) =
           (\<lambda>k. if k \<in> key ` set cs then Some (filter (\<lambda>c. key c = k) cs) else None)"
proof (induction cs rule: rev_induct)
  case Nil
  show ?case by (simp add: grouped_def)
next
  case (snoc c cs)
  then have s: "sorted_wrt (<) (map fst (grouped key cs))"
    and m: "map_of (grouped key cs) =
           (\<lambda>k. if k \<in> key ` set cs then Some (filter (\<lambda>c. key c = k) cs) else None)"
    by simp_all
  have step: "grouped key (cs @ [c]) = map_modify (key c) (\<lambda>ps. ps @ [c]) [] (grouped key cs)"
    by (simp add: grouped_def)
  have old: "(case map_of (grouped key cs) (key c) of None \<Rightarrow> [] | Some v \<Rightarrow> v)
               = filter (\<lambda>c'. key c' = key c) cs"
  proof (cases "key c \<in> key ` set cs")
    case True
    then show ?thesis unfolding m by simp
  next
    case False
    then have "filter (\<lambda>c'. key c' = key c) cs = []"
      unfolding filter_empty_conv by (metis image_eqI)
    then show ?thesis unfolding m using False by simp
  qed
  have "map_of (grouped key (cs @ [c])) =
      (map_of (grouped key cs))(key c \<mapsto> filter (\<lambda>c'. key c' = key c) cs @ [c])"
    unfolding step map_of_map_modify [OF s] old ..
  also have "\<dots> = (\<lambda>k. if k \<in> key ` set (cs @ [c])
                       then Some (filter (\<lambda>c'. key c' = k) (cs @ [c])) else None)"
    unfolding m by (auto simp: fun_eq_iff)
  finally show ?case using sorted_map_modify [OF s] unfolding step by simp
qed

lemma blockMap_entries:
  assumes "entry \<in> set (blockMap grid b)"
  shows "snd entry = occurrences grid b (fst entry)"
proof -
  let ?key = "\<lambda>c. blockAt grid b (fst c) (snd c)"
  let ?cs = "gridCells (width grid - b + 1) (height grid - b + 1)"
  have bm: "blockMap grid b = grouped ?key ?cs"
    unfolding blockMap_def nested_for_upto0 grouped_def by simp
  from grouping [of ?key ?cs]
  have s: "sorted_wrt (<) (map fst (blockMap grid b))"
    and m: "map_of (blockMap grid b) =
           (\<lambda>k. if k \<in> ?key ` set ?cs then Some (filter (\<lambda>c. ?key c = k) ?cs) else None)"
    unfolding bm by simp_all
  have "distinct (map fst (blockMap grid b))"
    using s by (simp add: strict_sorted_iff)
  from map_of_is_SomeI [OF this, of "fst entry" "snd entry"] assms
  have "map_of (blockMap grid b) (fst entry) = Some (snd entry)"
    by simp
  then show ?thesis unfolding m occurrences_def by (simp split: if_splits)
qed

lemma detectRepetitions_patterns:
  "\<forall>p\<in>set (detectRepetitions grid). repetition_of grid p"
proof -
  let ?P = "\<lambda>rs::Pattern list. \<forall>p\<in>set rs. repetition_of grid p"
  have inner: "?P (fold (\<lambda>entry repetitions.
         if length (snd entry) \<ge> 2
         then repetitions @ [repetitionPattern b (snd entry)]
         else repetitions) (blockMap grid b) rs)" if rs: "?P rs" and b: "2 \<le> b" for b :: int and rs
  proof (rule fold_invariant [where Q = "\<lambda>entry. entry \<in> set (blockMap grid b)" and P = ?P])
    show "?P rs" by fact
  next
    fix e t assume e: "e \<in> set (blockMap grid b)" and t: "?P t"
    show "?P (if length (snd e) \<ge> 2 then t @ [repetitionPattern b (snd e)] else t)"
    proof (cases "length (snd e) \<ge> 2")
      case True
      have "repetition_of grid (repetitionPattern b (snd e))"
        unfolding repetition_of_def
        using b True blockMap_entries [OF e] by (intro exI [of _ b] exI [of _ "fst e"]) simp
      then show ?thesis using True t by simp
    next
      case False
      then show ?thesis using t by simp
    qed
  qed simp
  show ?thesis
    unfolding detectRepetitions_def
  proof (rule for_range_invariant [where P = ?P])
    show "?P []" by simp
  next
    fix b :: int and t assume "2 \<le> b" "?P t"
    then show "?P (fold (\<lambda>entry repetitions.
         if length (snd entry) \<ge> 2
         then repetitions @ [repetitionPattern b (snd entry)]
         else repetitions) (blockMap grid b) t)" by (intro inner)
  qed
qed

lemma flag_loop_inner:
  "fold (\<lambda>x flag. if flag then (if c x then False else flag) else flag) xs fl
     = (fl \<and> (\<forall>x\<in>set xs. \<not> c x))"
  by (induction xs arbitrary: fl) auto

lemma flag_loop_outer:
  "fold (\<lambda>y flag. if flag then g y flag else flag) ys fl = (fl \<and> (\<forall>y\<in>set ys. g y True))"
  by (induction ys arbitrary: fl) auto

lemma horizontalSymmetry_half:
  "horizontalSymmetry grid \<longleftrightarrow>
     (\<forall>y\<in>{0..<height grid}. \<forall>x\<in>{0..<width grid div 2}.
        getCell grid x y = getCell grid (width grid - 1 - x) y)"
  unfolding horizontalSymmetry_def for_upto_def for_range_def
  by (simp add: flag_loop_outer flag_loop_inner set_upto_less del: set_upto)

lemma mirror_column_cases:
  fixes x W :: int
  assumes "0 \<le> x" "x < W"
  shows "x < W div 2 \<or> (0 \<le> W - 1 - x \<and> W - 1 - x < W div 2) \<or> W - 1 - x = x"
  using assms by presburger

lemma horizontalSymmetry_iff: "horizontalSymmetry grid \<longleftrightarrow> horizontal_mirror grid"
proof
  assume m: "horizontal_mirror grid"
  have "getCell grid x y = getCell grid (width grid - 1 - x) y"
    if "y \<in> {0..<height grid}" "x \<in> {0..<width grid div 2}" for x y
  proof -
    have "x \<in> {0..<width grid}" using that(2) by simp presburger
    with m that(1) show ?thesis unfolding horizontal_mirror_def by blast
  qed
  then show "horizontalSymmetry grid"
    unfolding horizontalSymmetry_half by blast
next
  assume "horizontalSymmetry grid"
  then have H: "getCell grid x y = getCell grid (width grid - 1 - x) y"
    if "0 \<le> y" "y < height grid" "0 \<le> x" "x < width grid div 2" for x y
    using that unfolding horizontalSymmetry_half by simp
  show "horizontal_mirror grid"
    unfolding horizontal_mirror_def
  proof (intro ballI)
    fix y x assume "y \<in> {0..<height grid}" and "x \<in> {0..<width grid}"
    then have y: "0 \<le> y" "y < height grid" and x: "0 \<le> x" "x < width grid" by simp_all
    let ?x' = "width grid - 1 - x"
    from mirror_column_cases [OF x]
    consider "x < width grid div 2" | "0 \<le> ?x' \<and> ?x' < width grid div 2" | "?x' = x"
      by blast
    then show "getCell grid x y = getCell grid ?x' y"
    proof cases
      case 1
      then show ?thesis using H [OF y x(1)] by simp
    next
      case 2
      then have "getCell grid ?x' y = getCell grid (width grid - 1 - ?x') y"
        using H [OF y, of ?x'] by simp
      then show ?thesis by simp
    next
      case 3
      then show ?thesis by simp
    qed
  qed
qed

lemma repetition_of_type:
  assumes "repetition_of grid p"
  shows "type p \<notin> {''rectangle'', ''horizontal_line'', ''vertical_line'',
                    ''horizontal_symmetry'', ''vertical_symmetry''}"
  using assms unfolding repetition_of_def repetitionPattern_def newPattern_def by auto

lemma detectSymmetries_patterns:
  "\<forall>p\<in>set (detectSymmetries grid).
     type p \<in> {''horizontal_symmetry'', ''vertical_symmetry''} \<and> confidence p = f32 0.9"
  by (auto simp: detectSymmetries_def newPattern_def)

lemma detectPatterns_cases:
  assumes "p \<in> set (detectPatterns grid)"
  shows "(type p = ''rectangle'' \<and> confidence p = f32 0.8)
       \<or> (type p \<in> {''horizontal_line'', ''vertical_line''} \<and> confidence p = f32 0.7)
       \<or> (type p \<in> {''horizontal_symmetry'', ''vertical_symmetry''} \<and> confidence p = f32 0.9
            \<and> p \<in> set (detectSymmetries grid))
       \<or> repetition_of grid p"
proof -
  from assms consider "p \<in> set (detectRectangles grid)" | "p \<in> set (detectLines grid)"
    | "p \<in> set (detectSymmetries grid)" | "p \<in> set (detectRepetitions grid)"
    by (auto simp: detectPatterns_def)
  then show ?thesis
  proof cases
    case 1
    with detectRectangles_patterns [of grid] show ?thesis by blast
  next
    case 2
    with detectLines_patterns [of grid] show ?thesis by blast
  next
    case 3
    with detectSymmetries_patterns [of grid] show ?thesis by blast
  next
    case 4
    with detectRepetitions_patterns [of grid] show ?thesis by blast
  qed
qed

lemma f32_0_9: "f32 0.9 = 7549747 / 8388608"
  by code_simp

text \<open>
  Claim C5 says that a grid that is a horizontal mirror of itself gets a pattern of
  type \<^verbatim>\<open>horizontal_symmetry\<close> with confidence at least 0.9. The detector stores the
  single-precision literal \<^verbatim>\<open>0.9f\<close>, which is \<open>7549747 / 8388608\<close>, below 0.9: the
  \<open>3 \<times> 3\<close> grid with the single cell \<open>(1, 1) = 1\<close> is its own horizontal mirror and its
  symmetry patterns have that confidence.
\<close>

theorem C5_counterexample:
  "horizontal_mirror example_in
   \<and> map (\<lambda>p. (type p, confidence p)) (detectPatterns example_in)
       = [(''horizontal_symmetry'', 7549747 / 8388608), (''vertical_symmetry'', 7549747 / 8388608)]
   \<and> \<not> (0.9 \<le> (7549747 / 8388608 :: real))"
proof -
  have "horizontal_mirror example_in"
    unfolding horizontalSymmetry_iff [symmetric] by code_simp
  moreover have "map (\<lambda>p. (type p, confidence p)) (detectPatterns example_in)
       = [(''horizontal_symmetry'', 7549747 / 8388608), (''vertical_symmetry'', 7549747 / 8388608)]"
    by code_simp
  ultimately show ?thesis by simp
qed

text \<open>
  Claim C5, amended. A grid that is a horizontal mirror of itself gets a pattern of
  type \<^verbatim>\<open>horizontal_symmetry\<close> from \<open>detectPatterns\<close>, and a grid that is not gets no
  pattern of that type; every pattern of that type has the confidence \<^verbatim>\<open>0.9f\<close>, the
  single-precision number \<open>7549747 / 8388608\<close>, which lies between 0.89 and 0.9.
\<close>

theorem C5_horizontal_symmetry:
  "(horizontal_mirror grid \<longrightarrow>
      (\<exists>p\<in>set (detectPatterns grid). type p = ''horizontal_symmetry'' \<and> confidence p = f32 0.9))
   \<and> (\<not> horizontal_mirror grid \<longrightarrow>
      (\<forall>p\<in>set (detectPatterns grid). type p \<noteq> ''horizontal_symmetry''))
   \<and> (\<forall>p\<in>set (detectPatterns grid).
        type p = ''horizontal_symmetry'' \<longrightarrow> confidence p = f32 0.9)
   \<and> f32 0.9 = 7549747 / 8388608 \<and> f32 0.9 < 0.9 \<and> 0.89 < f32 0.9"
proof (intro conjI impI ballI)
  assume "horizontal_mirror grid"
  then have "newPattern\<lparr>type := ''horizontal_symmetry'', confidence := f32 0.9\<rparr>
      \<in> set (detectPatterns grid)"
    by (simp add: detectPatterns_def detectSymmetries_def horizontalSymmetry_iff)
  then show "\<exists>p\<in>set (detectPatterns grid). type p = ''horizontal_symmetry'' \<and> confidence p = f32 0.9"
    by (rule rev_bexI) simp
next
  fix p assume n: "\<not> horizontal_mirror grid" and p: "p \<in> set (detectPatterns grid)"
  show "type p \<noteq> ''horizontal_symmetry''"
  proof
    assume t: "type p = ''horizontal_symmetry''"
    from detectPatterns_cases [OF p] t repetition_of_type [of grid p]
    have "p \<in> set (detectSymmetries grid)" by auto
    with n t show False
      by (auto simp: detectSymmetries_def horizontalSymmetry_iff newPattern_def split: if_splits)
  qed
next
  fix p assume p: "p \<in> set (detectPatterns grid)" and t: "type p = ''horizontal_symmetry''"
  from detectPatterns_cases [OF p] t repetition_of_type [of grid p]
  show "confidence p = f32 0.9" by auto
qed (simp_all add: f32_0_9)

theorem C5_horizontal_symmetry_witness:
  "horizontal_mirror example_in
   \<and> (\<exists>p\<in>set (detectPatterns example_in).
        type p = ''horizontal_symmetry'' \<and> confidence p = 7549747 / 8388608)
   \<and> map type (detectPatterns example_in) = [''horizontal_symmetry'', ''vertical_symmetry'']
   \<and> \<not> horizontal_mirror test_in
   \<and> ''horizontal_symmetry'' \<notin> type ` set (detectPatterns test_in)
   \<and> map type (detectPatterns test_in) = []"
proof -
  have m: "horizontal_mirror example_in"
    unfolding horizontalSymmetry_iff [symmetric] by code_simp
  have n: "\<not> horizontal_mirror test_in"
    unfolding horizontalSymmetry_iff [symmetric] by code_simp
  have t: "map type (detectPatterns example_in) = [''horizontal_symmetry'', ''vertical_symmetry'']"
    "map type (detectPatterns test_in) = []"
    by code_simp+
  note T1 = C5_horizontal_symmetry [of example_in] and T2 = C5_horizontal_symmetry [of test_in]
  from T1 m
  have "\<exists>p\<in>set (detectPatterns example_in).
        type p = ''horizontal_symmetry'' \<and> confidence p = f32 0.9"
    by blast
  then have 1: "\<exists>p\<in>set (detectPatterns example_in).
        type p = ''horizontal_symmetry'' \<and> confidence p = 7549747 / 8388608"
    unfolding f32_0_9 .
  from T2 n
  have 2: "''horizontal_symmetry'' \<notin> type ` set (detectPatterns test_in)"
    by force
  from m n t 1 2 show ?thesis by simp
qed




end
